theory Spec2Isabelle
  imports Main "HOL-Library.AList"
begin

section \<open>Python values and exceptions\<close>

text \<open>
  The rows handed to \<^verbatim>\<open>_parse_audit_log_row\<close> are \<^verbatim>\<open>Dict[str, Any]\<close>. The values that
  occur are \<^verbatim>\<open>None\<close>, booleans, integers, strings, timezone-aware datetimes, and what
  \<^verbatim>\<open>json.loads\<close> returns (lists and dicts of those). A dict is an association list in
  insertion order whose keys are distinct; lookup takes the first entry of a key. A
  datetime is its instant (microseconds since the epoch) and its UTC offset in minutes.
  Floats are left out.
\<close>

datatype pyval =
    PNone
  | PBool bool
  | PInt int
  | PStr string
  | PList "pyval list"
  | PDict "(string \<times> pyval) list"
  | PTime int int

datatype error = KeyError string | TypeError | AttributeError | JSONDecodeError | AssertionError

type_synonym 'a result = "error + 'a"

definition bind :: "'a result \<Rightarrow> ('a \<Rightarrow> 'b result) \<Rightarrow> 'b result" where
  "bind m f = (case m of Inl e \<Rightarrow> Inl e | Inr x \<Rightarrow> f x)"

text \<open>Truth value of a Python object, as \<^verbatim>\<open>if value:\<close> tests it.\<close>

fun truthy :: "pyval \<Rightarrow> bool" where
  "truthy PNone = False"
| "truthy (PBool b) = b"
| "truthy (PInt n) = (n \<noteq> 0)"
| "truthy (PStr s) = (s \<noteq> [])"
| "truthy (PList xs) = (xs \<noteq> [])"
| "truthy (PDict kvs) = (kvs \<noteq> [])"
| "truthy (PTime t z) = True"

text \<open>\<^verbatim>\<open>obj[key]\<close> with a string key: only a dict accepts it, and raises KeyError when the
  key is missing; every other type raises TypeError.\<close>

fun getitem :: "pyval \<Rightarrow> string \<Rightarrow> pyval result" where
  "getitem (PDict kvs) k = (case map_of kvs k of None \<Rightarrow> Inl (KeyError k) | Some v \<Rightarrow> Inr v)"
| "getitem _ k = Inl TypeError"

text \<open>\<^verbatim>\<open>for obj in value\<close>: a list yields its elements, a string its characters, a dict
  its keys; \<^verbatim>\<open>None\<close>, booleans, integers and datetimes are not iterable.\<close>

fun iter :: "pyval \<Rightarrow> pyval list result" where
  "iter (PList xs) = Inr xs"
| "iter (PStr s) = Inr (map (\<lambda>c. PStr [c]) s)"
| "iter (PDict kvs) = Inr (map (\<lambda>kv. PStr (fst kv)) kvs)"
| "iter _ = Inl TypeError"

text \<open>The helpers of the identifier mixin are annotated \<^verbatim>\<open>str -> str\<close>; their code is not
  part of this file's source, so they are parameters. What they do with an argument that
  is not a string is not visible here: the model raises TypeError there.\<close>

fun as_str :: "pyval \<Rightarrow> string result" where
  "as_str (PStr s) = Inr s"
| "as_str _ = Inl TypeError"

text \<open>\<^verbatim>\<open>str.lower\<close> and \<^verbatim>\<open>str.upper\<close> on ASCII letters; other bytes are unchanged.\<close>

definition lower_char :: "char \<Rightarrow> char" where
  "lower_char c = (let n = (of_char c :: nat) in if 65 \<le> n \<and> n \<le> 90 then char_of (n + 32) else c)"

definition upper_char :: "char \<Rightarrow> char" where
  "upper_char c = (let n = (of_char c :: nat) in if 97 \<le> n \<and> n \<le> 122 then char_of (n - 32) else c)"

definition lower :: "string \<Rightarrow> string" where
  "lower s = map lower_char s"

definition upper :: "string \<Rightarrow> string" where
  "upper s = map upper_char s"

section \<open>The query-type table\<close>

datatype QueryType =
    INSERT | UPDATE | DELETE | CREATE_OTHER | CREATE_DDL | CREATE_VIEW
  | CREATE_TABLE_AS_SELECT | MERGE | UNKNOWN

definition SNOWFLAKE_QUERY_TYPE_MAPPING :: "(string \<times> QueryType) list" where
  "SNOWFLAKE_QUERY_TYPE_MAPPING =
    [(''INSERT'', INSERT),
     (''UPDATE'', UPDATE),
     (''DELETE'', DELETE),
     (''CREATE'', CREATE_OTHER),
     (''CREATE_TABLE'', CREATE_DDL),
     (''CREATE_VIEW'', CREATE_VIEW),
     (''CREATE_TABLE_AS_SELECT'', CREATE_TABLE_AS_SELECT),
     (''MERGE'', MERGE),
     (''COPY'', UNKNOWN),
     (''TRUNCATE_TABLE'', UNKNOWN)]"

text \<open>\<^verbatim>\<open>SNOWFLAKE_QUERY_TYPE_MAPPING.get(v, QueryType.UNKNOWN)\<close>: a list or dict key is
  unhashable and raises TypeError; any other key that is not in the table gives the
  default.\<close>

fun query_type_get :: "pyval \<Rightarrow> QueryType result" where
  "query_type_get (PStr s) =
     Inr (case map_of SNOWFLAKE_QUERY_TYPE_MAPPING s of None \<Rightarrow> UNKNOWN | Some q \<Rightarrow> q)"
| "query_type_get (PList xs) = Inl TypeError"
| "query_type_get (PDict kvs) = Inl TypeError"
| "query_type_get _ = Inr UNKNOWN"

section \<open>The row parser\<close>

text \<open>
  What the parser reads from outside this file: \<^verbatim>\<open>json.loads\<close>, the mixin's
  \<^verbatim>\<open>cleanup_qualified_name\<close>, \<^verbatim>\<open>snowflake_identifier\<close> and \<^verbatim>\<open>gen_dataset_urn\<close>, the
  constructor \<^verbatim>\<open>CorpUserUrn\<close>, and the constant set
  \<^verbatim>\<open>SnowflakeQuery.ACCESS_HISTORY_TABLE_VIEW_DOMAINS\<close>.
\<close>

record env =
  loads :: "string \<Rightarrow> pyval result"
  cleanup_qualified_name :: "string \<Rightarrow> string"
  snowflake_identifier :: "string \<Rightarrow> string"
  gen_dataset_urn :: "string \<Rightarrow> string"
  CorpUserUrn :: "string \<Rightarrow> string"
  ACCESS_HISTORY_TABLE_VIEW_DOMAINS :: "string list"

type_synonym row = "(string \<times> pyval) list"

record ColumnRef =
  table :: string
  column :: string

record ColumnLineageInfo =
  cl_downstream :: ColumnRef
  cl_upstreams :: "ColumnRef list"

record PreparsedQuery =
  query_id :: pyval
  query_text :: pyval
  upstreams :: "string list"
  downstream :: "string option"
  column_lineage :: "ColumnLineageInfo list option"
  column_usage :: "(string \<times> string set) list"
  confidence_score :: int
  query_count :: pyval
  user :: string
  timestamp :: "int \<times> int"
  session_id :: pyval
  query_type :: QueryType

text \<open>A warning on the structured report: the parser's own, or the driver's, which
  carries the exception.\<close>

datatype warning =
    MultipleDownstream row
  | ErrorParsingRow row error

definition json_fields :: "string list" where
  "json_fields = [''DIRECT_OBJECTS_ACCESSED'', ''OBJECTS_MODIFIED'']"

text \<open>\<^verbatim>\<open>json.loads(value)\<close> accepts a string only.\<close>

definition json_loads :: "env \<Rightarrow> pyval \<Rightarrow> pyval result" where
  "json_loads E v = (case v of PStr s \<Rightarrow> loads E s | _ \<Rightarrow> Inl TypeError)"

text \<open>The first loop of the parser: decode the JSON fields, lower-case every key,
  store into \<^verbatim>\<open>res\<close> (a later key replaces an equal earlier one in place).\<close>

fun build_res :: "env \<Rightarrow> row \<Rightarrow> (string \<times> pyval) list \<Rightarrow> (string \<times> pyval) list result" where
  "build_res E [] res = Inr res"
| "build_res E ((key, v) # kvs) res =
     bind (if key \<in> set json_fields \<and> truthy v then json_loads E v else Inr v)
       (\<lambda>v'. build_res E kvs (AList.update (lower key) v' res))"

definition res_get :: "(string \<times> pyval) list \<Rightarrow> string \<Rightarrow> pyval result" where
  "res_get res k = (case map_of res k of None \<Rightarrow> Inl (KeyError k) | Some v \<Rightarrow> Inr v)"

definition get_dataset_identifier_from_qualified_name :: "env \<Rightarrow> string \<Rightarrow> string" where
  "get_dataset_identifier_from_qualified_name E qualified_name =
     snowflake_identifier E (cleanup_qualified_name E qualified_name)"

text \<open>\<^verbatim>\<open>self.gen_dataset_urn(self.get_dataset_identifier_from_qualified_name(obj["objectName"]))\<close>\<close>

definition dataset_of :: "env \<Rightarrow> pyval \<Rightarrow> string result" where
  "dataset_of E obj =
     bind (getitem obj ''objectName'') (\<lambda>n. bind (as_str n) (\<lambda>s.
       Inr (gen_dataset_urn E (get_dataset_identifier_from_qualified_name E s))))"

text \<open>\<^verbatim>\<open>self.snowflake_identifier(c["columnName"])\<close>\<close>

definition column_of :: "env \<Rightarrow> pyval \<Rightarrow> string result" where
  "column_of E c =
     bind (getitem c ''columnName'') (\<lambda>n. bind (as_str n) (\<lambda>s. Inr (snowflake_identifier E s)))"

text \<open>The inner loop over \<^verbatim>\<open>obj["columns"]\<close> of an accessed object, adding to a set.\<close>

fun accessed_columns :: "env \<Rightarrow> pyval list \<Rightarrow> string set \<Rightarrow> string set result" where
  "accessed_columns E [] columns = Inr columns"
| "accessed_columns E (c # cs) columns =
     bind (column_of E c) (\<lambda>n. accessed_columns E cs (insert n columns))"

text \<open>The loop over \<^verbatim>\<open>direct_objects_accessed\<close>.\<close>

fun accessed_loop ::
  "env \<Rightarrow> pyval list \<Rightarrow> string list \<times> (string \<times> string set) list
     \<Rightarrow> (string list \<times> (string \<times> string set) list) result" where
  "accessed_loop E [] acc = Inr acc"
| "accessed_loop E (obj # objs) (ups, usage) =
     bind (dataset_of E obj) (\<lambda>dataset.
     bind (getitem obj ''columns'') (\<lambda>cols.
     bind (iter cols) (\<lambda>cs.
     bind (accessed_columns E cs {}) (\<lambda>columns.
       accessed_loop E objs (ups @ [dataset], AList.update dataset columns usage)))))"

text \<open>The list comprehension over \<^verbatim>\<open>modified_column["directSources"]\<close>: the condition
  is evaluated first, and the reference is built only when it holds. A domain that is a
  list or a dict cannot be looked up in a set (unhashable); a domain that is not a string
  is in no set of strings.\<close>

fun domain_in :: "env \<Rightarrow> pyval \<Rightarrow> bool result" where
  "domain_in E (PStr d) = Inr (d \<in> set (ACCESS_HISTORY_TABLE_VIEW_DOMAINS E))"
| "domain_in E (PList xs) = Inl TypeError"
| "domain_in E (PDict kvs) = Inl TypeError"
| "domain_in E _ = Inr False"

definition column_ref_of :: "env \<Rightarrow> pyval \<Rightarrow> ColumnRef result" where
  "column_ref_of E upstream =
     bind (dataset_of E upstream) (\<lambda>t.
     bind (column_of E upstream) (\<lambda>c. Inr \<lparr>table = t, column = c\<rparr>))"

fun direct_sources :: "env \<Rightarrow> pyval list \<Rightarrow> ColumnRef list result" where
  "direct_sources E [] = Inr []"
| "direct_sources E (upstream # rest) =
     bind (getitem upstream ''objectDomain'') (\<lambda>d.
     bind (domain_in E d) (\<lambda>keep.
       if keep
       then bind (column_ref_of E upstream) (\<lambda>r.
            bind (direct_sources E rest) (\<lambda>rs. Inr (r # rs)))
       else direct_sources E rest))"

text \<open>One \<^verbatim>\<open>ColumnLineageInfo\<close>: the downstream column is resolved before the
  comprehension runs.\<close>

definition column_lineage_info :: "env \<Rightarrow> string \<Rightarrow> pyval \<Rightarrow> ColumnLineageInfo result" where
  "column_lineage_info E ds modified_column =
     bind (column_of E modified_column) (\<lambda>c.
     bind (getitem modified_column ''directSources'') (\<lambda>srcs.
     bind (iter srcs) (\<lambda>ss.
     bind (direct_sources E ss) (\<lambda>ups.
       Inr \<lparr>cl_downstream = \<lparr>table = ds, column = c\<rparr>, cl_upstreams = ups\<rparr>))))"

fun modified_columns :: "env \<Rightarrow> string \<Rightarrow> pyval list \<Rightarrow> ColumnLineageInfo list result" where
  "modified_columns E ds [] = Inr []"
| "modified_columns E ds (c # cs) =
     bind (column_lineage_info E ds c) (\<lambda>i.
     bind (modified_columns E ds cs) (\<lambda>is. Inr (i # is)))"

text \<open>The body of the loop over \<^verbatim>\<open>objects_modified\<close> after the warning: it assigns
  \<^verbatim>\<open>downstream\<close> and \<^verbatim>\<open>column_lineage\<close> anew.\<close>

definition modified_body :: "env \<Rightarrow> pyval \<Rightarrow> (string \<times> ColumnLineageInfo list) result" where
  "modified_body E obj =
     bind (dataset_of E obj) (\<lambda>ds.
     bind (getitem obj ''columns'') (\<lambda>cols.
     bind (iter cols) (\<lambda>cs.
     bind (modified_columns E ds cs) (\<lambda>cl. Inr (ds, cl)))))"

text \<open>\<^verbatim>\<open>if downstream:\<close> on a variable that is \<^verbatim>\<open>None\<close> or a string.\<close>

definition downstream_set :: "string option \<Rightarrow> bool" where
  "downstream_set d = (case d of None \<Rightarrow> False | Some s \<Rightarrow> s \<noteq> [])"

text \<open>The loop over \<^verbatim>\<open>objects_modified\<close>. The warnings reported so far stay on the
  report when a later step raises.\<close>

fun modified_loop ::
  "env \<Rightarrow> row \<Rightarrow> pyval list \<Rightarrow> string option \<times> ColumnLineageInfo list option \<Rightarrow> warning list
     \<Rightarrow> warning list \<times> (string option \<times> ColumnLineageInfo list option) result" where
  "modified_loop E r [] st ws = (ws, Inr st)"
| "modified_loop E r (obj # objs) (ds, cl) ws =
     (let ws' = (if downstream_set ds then ws @ [MultipleDownstream r] else ws)
      in case modified_body E obj of
           Inl e \<Rightarrow> (ws', Inl e)
         | Inr (ds', cl') \<Rightarrow> modified_loop E r objs (Some ds', Some cl') ws')"

text \<open>\<^verbatim>\<open>timestamp.astimezone(timezone.utc)\<close>: the same instant at offset 0; a value that
  is not a datetime has no such method.\<close>

fun astimezone_utc :: "pyval \<Rightarrow> (int \<times> int) result" where
  "astimezone_utc (PTime t z) = Inr (t, 0)"
| "astimezone_utc _ = Inl AttributeError"

text \<open>What follows the two loops: the user, the timestamp, the query type and the
  record, its fields read from \<^verbatim>\<open>res\<close> in the order of the source.\<close>

definition assemble ::
  "env \<Rightarrow> (string \<times> pyval) list \<Rightarrow> string list \<times> (string \<times> string set) list
     \<Rightarrow> string option \<times> ColumnLineageInfo list option \<Rightarrow> PreparsedQuery result" where
  "assemble E res acc st =
     bind (res_get res ''user_name'') (\<lambda>un.
     bind (as_str un) (\<lambda>uname.
     bind (res_get res ''query_start_time'') (\<lambda>ts.
     bind (astimezone_utc ts) (\<lambda>ts'.
     bind (res_get res ''query_type'') (\<lambda>qt.
     bind (query_type_get qt) (\<lambda>qtype.
     bind (res_get res ''query_fingerprint'') (\<lambda>qid.
     bind (res_get res ''query_text'') (\<lambda>qtext.
     bind (res_get res ''query_count'') (\<lambda>qcount.
     bind (res_get res ''session_id'') (\<lambda>sid.
       Inr \<lparr>query_id = qid, query_text = qtext, upstreams = fst acc, downstream = fst st,
            column_lineage = snd st, column_usage = snd acc, confidence_score = 1,
            query_count = qcount, user = CorpUserUrn E uname, timestamp = ts',
            session_id = sid, query_type = qtype\<rparr>))))))))))"

text \<open>\<^verbatim>\<open>_parse_audit_log_row\<close>: the warnings it reports and its result.\<close>

definition parse_audit_log_row :: "env \<Rightarrow> row \<Rightarrow> warning list \<times> PreparsedQuery result" where
  "parse_audit_log_row E r =
     (case build_res E r [] of Inl e \<Rightarrow> ([], Inl e) | Inr res \<Rightarrow>
      case res_get res ''direct_objects_accessed'' of Inl e \<Rightarrow> ([], Inl e) | Inr doa \<Rightarrow>
      case res_get res ''objects_modified'' of Inl e \<Rightarrow> ([], Inl e) | Inr om \<Rightarrow>
      case bind (iter doa) (\<lambda>objs. accessed_loop E objs ([], [])) of Inl e \<Rightarrow> ([], Inl e) | Inr acc \<Rightarrow>
      case iter om of Inl e \<Rightarrow> ([], Inl e) | Inr mods \<Rightarrow>
      (let (ws, st) = modified_loop E r mods (None, None) []
       in (ws, bind st (assemble E res acc))))"

section \<open>The driver loop\<close>

text \<open>\<^verbatim>\<open>fetch_audit_log\<close> after the query has run: for each row of the cursor, the
  parser's warnings go on the report; an exception adds the driver's warning and yields
  nothing; a record is yielded. The result is the report and the yielded records.\<close>

fun fetch_rows :: "env \<Rightarrow> row list \<Rightarrow> warning list \<times> PreparsedQuery list" where
  "fetch_rows E [] = ([], [])"
| "fetch_rows E (r # rs) =
     (let (ws, res) = parse_audit_log_row E r; (ws', out) = fetch_rows E rs
      in case res of
           Inl e \<Rightarrow> (ws @ [ErrorParsingRow r e] @ ws', out)
         | Inr entry \<Rightarrow> (ws @ ws', entry # out))"

section \<open>Rows of the documented shape\<close>

text \<open>
  The access-history arrays hold objects
  \<^verbatim>\<open>{objectName, objectDomain, columns: [{columnName, directSources: [{objectName, objectDomain, columnName}]}]}\<close>.
  The records below are that shape; a view relates a decoded Python value to the record
  it carries. A view reads only the keys the parser reads, so a dict with further keys
  (\<^verbatim>\<open>objectId\<close>, \<^verbatim>\<open>baseSources\<close>) is viewed as well, and the columns of an accessed object
  need no \<^verbatim>\<open>directSources\<close>.
\<close>

record source =
  s_objectName :: string
  s_objectDomain :: string
  s_columnName :: string

record modified_column =
  c_columnName :: string
  c_directSources :: "source list"

record modified_object =
  m_objectName :: string
  m_columns :: "modified_column list"

record accessed_object =
  a_objectName :: string
  a_columns :: "string list"

definition source_view :: "pyval \<Rightarrow> source \<Rightarrow> bool" where
  "source_view v s \<longleftrightarrow>
     getitem v ''objectName'' = Inr (PStr (s_objectName s)) \<and>
     getitem v ''objectDomain'' = Inr (PStr (s_objectDomain s)) \<and>
     getitem v ''columnName'' = Inr (PStr (s_columnName s))"

definition modified_column_view :: "pyval \<Rightarrow> modified_column \<Rightarrow> bool" where
  "modified_column_view v c \<longleftrightarrow>
     getitem v ''columnName'' = Inr (PStr (c_columnName c)) \<and>
     (case getitem v ''directSources'' of
        Inr (PList vs) \<Rightarrow> list_all2 source_view vs (c_directSources c)
      | _ \<Rightarrow> False)"

definition modified_object_view :: "pyval \<Rightarrow> modified_object \<Rightarrow> bool" where
  "modified_object_view v m \<longleftrightarrow>
     getitem v ''objectName'' = Inr (PStr (m_objectName m)) \<and>
     (case getitem v ''columns'' of
        Inr (PList vs) \<Rightarrow> list_all2 modified_column_view vs (m_columns m)
      | _ \<Rightarrow> False)"

definition accessed_column_view :: "pyval \<Rightarrow> string \<Rightarrow> bool" where
  "accessed_column_view v c \<longleftrightarrow> getitem v ''columnName'' = Inr (PStr c)"

definition accessed_object_view :: "pyval \<Rightarrow> accessed_object \<Rightarrow> bool" where
  "accessed_object_view v a \<longleftrightarrow>
     getitem v ''objectName'' = Inr (PStr (a_objectName a)) \<and>
     (case getitem v ''columns'' of
        Inr (PList vs) \<Rightarrow> list_all2 accessed_column_view vs (a_columns a)
      | _ \<Rightarrow> False)"

text \<open>The scalar fields the parser reads from the decoded row: the user name is a string,
  the start time a datetime, the query type hashable, and the four fields that are passed
  through are present.\<close>

definition scalars_ok :: "(string \<times> pyval) list \<Rightarrow> bool" where
  "scalars_ok res \<longleftrightarrow>
     (case map_of res ''user_name'' of Some (PStr s) \<Rightarrow> True | _ \<Rightarrow> False) \<and>
     (case map_of res ''query_start_time'' of Some (PTime t z) \<Rightarrow> True | _ \<Rightarrow> False) \<and>
     (case map_of res ''query_type'' of
        Some (PList xs) \<Rightarrow> False | Some (PDict kvs) \<Rightarrow> False | Some _ \<Rightarrow> True | None \<Rightarrow> False) \<and>
     map_of res ''query_fingerprint'' \<noteq> None \<and>
     map_of res ''query_text'' \<noteq> None \<and>
     map_of res ''query_count'' \<noteq> None \<and>
     map_of res ''session_id'' \<noteq> None"

text \<open>A raw audit row of the documented shape: its JSON fields decode, its two arrays
  are lists that carry \<open>accessed\<close> and \<open>modified\<close>, and its scalar fields are
  as above.\<close>

definition row_view :: "env \<Rightarrow> row \<Rightarrow> accessed_object list \<Rightarrow> modified_object list \<Rightarrow> bool" where
  "row_view E r accessed modified \<longleftrightarrow>
     (case build_res E r [] of
        Inl e \<Rightarrow> False
      | Inr res \<Rightarrow>
          (case map_of res ''direct_objects_accessed'' of
             Some (PList vs) \<Rightarrow> list_all2 accessed_object_view vs accessed
           | _ \<Rightarrow> False) \<and>
          (case map_of res ''objects_modified'' of
             Some (PList vs) \<Rightarrow> list_all2 modified_object_view vs modified
           | _ \<Rightarrow> False) \<and>
          scalars_ok res)"

text \<open>What the parser makes of the typed shape.\<close>

definition urn_of :: "env \<Rightarrow> string \<Rightarrow> string" where
  "urn_of E n = gen_dataset_urn E (get_dataset_identifier_from_qualified_name E n)"

definition is_table_view :: "env \<Rightarrow> source \<Rightarrow> bool" where
  "is_table_view E s \<longleftrightarrow> s_objectDomain s \<in> set (ACCESS_HISTORY_TABLE_VIEW_DOMAINS E)"

definition ref_of :: "env \<Rightarrow> source \<Rightarrow> ColumnRef" where
  "ref_of E s = \<lparr>table = urn_of E (s_objectName s), column = snowflake_identifier E (s_columnName s)\<rparr>"

definition info_of :: "env \<Rightarrow> string \<Rightarrow> modified_column \<Rightarrow> ColumnLineageInfo" where
  "info_of E ds c =
     \<lparr>cl_downstream = \<lparr>table = ds, column = snowflake_identifier E (c_columnName c)\<rparr>,
      cl_upstreams = map (ref_of E) (filter (is_table_view E) (c_directSources c))\<rparr>"

definition lineage_of :: "env \<Rightarrow> modified_object \<Rightarrow> ColumnLineageInfo list" where
  "lineage_of E m = map (info_of E (urn_of E (m_objectName m))) (m_columns m)"

section \<open>A sample environment and sample rows\<close>

text \<open>Sample values for the parameters: identifiers are lower-cased, names are not
  cleaned, and the decoder knows the JSON texts of the sample rows.\<close>

definition sample_doa :: string where
  \<open>sample_doa = ''[{"objectName": "DB.SCH.S", "objectDomain": "Table", "columns": [{"columnName": "X"}]}]''\<close>

definition sample_doa_twice :: string where
  \<open>sample_doa_twice = ''[{"objectName": "DB.SCH.S", "objectDomain": "Table", "columns": [{"columnName": "X"}]}, {"objectName": "DB.SCH.S", "objectDomain": "Table", "columns": [{"columnName": "Y"}]}]''\<close>

definition sample_om :: string where
  \<open>sample_om = ''[{"objectName": "DB.SCH.T", "objectDomain": "Table", "columns": [{"columnName": "A", "directSources": [{"objectName": "DB.SCH.S", "objectDomain": "Table", "columnName": "X"}, {"objectName": "DB.SCH.STG", "objectDomain": "Stage", "columnName": "$1"}]}]}]''\<close>

definition sample_om_two :: string where
  \<open>sample_om_two = ''[{"objectName": "DB.SCH.T1", "objectDomain": "Table", "columns": [{"columnName": "A", "directSources": []}]}, {"objectName": "DB.SCH.T2", "objectDomain": "Table", "columns": []}]''\<close>

definition obj_S :: pyval where
  "obj_S = PDict [(''objectName'', PStr ''DB.SCH.S''), (''objectDomain'', PStr ''Table''),
                  (''columns'', PList [PDict [(''columnName'', PStr ''X'')]])]"

definition obj_S_again :: pyval where
  "obj_S_again = PDict [(''objectName'', PStr ''DB.SCH.S''), (''objectDomain'', PStr ''Table''),
                  (''columns'', PList [PDict [(''columnName'', PStr ''Y'')]])]"

definition obj_T :: pyval where
  "obj_T = PDict [(''objectName'', PStr ''DB.SCH.T''), (''objectDomain'', PStr ''Table''),
     (''columns'', PList [PDict [(''columnName'', PStr ''A''),
        (''directSources'', PList [
           PDict [(''objectName'', PStr ''DB.SCH.S''), (''objectDomain'', PStr ''Table''),
                  (''columnName'', PStr ''X'')],
           PDict [(''objectName'', PStr ''DB.SCH.STG''), (''objectDomain'', PStr ''Stage''),
                  (''columnName'', PStr ''$1'')]])]])]"

definition obj_T1 :: pyval where
  "obj_T1 = PDict [(''objectName'', PStr ''DB.SCH.T1''), (''objectDomain'', PStr ''Table''),
     (''columns'', PList [PDict [(''columnName'', PStr ''A''), (''directSources'', PList [])]])]"

definition obj_T2 :: pyval where
  "obj_T2 = PDict [(''objectName'', PStr ''DB.SCH.T2''), (''objectDomain'', PStr ''Table''),
     (''columns'', PList [])]"

definition sample_loads :: "string \<Rightarrow> pyval result" where
  "sample_loads s =
     (if s = ''[]'' then Inr (PList [])
      else if s = sample_doa then Inr (PList [obj_S])
      else if s = sample_doa_twice then Inr (PList [obj_S, obj_S_again])
      else if s = sample_om then Inr (PList [obj_T])
      else if s = sample_om_two then Inr (PList [obj_T1, obj_T2])
      else Inl JSONDecodeError)"

definition sample_env :: env where
  "sample_env =
     \<lparr>loads = sample_loads,
      cleanup_qualified_name = (\<lambda>s. s),
      snowflake_identifier = lower,
      gen_dataset_urn = (\<lambda>s. ''urn:li:dataset:(urn:li:dataPlatform:snowflake,'' @ s @ '',PROD)''),
      CorpUserUrn = (\<lambda>s. ''urn:li:corpuser:'' @ s),
      ACCESS_HISTORY_TABLE_VIEW_DOMAINS =
        [''Table'', ''External table'', ''View'', ''Materialized view'']\<rparr>"

definition sample_row :: "pyval \<Rightarrow> pyval \<Rightarrow> row" where
  "sample_row doa om =
     [(''BUCKET_START_TIME'', PTime 1700000000000000 0),
      (''QUERY_ID'', PStr ''01b2c3''),
      (''QUERY_FINGERPRINT'', PStr ''f00d''),
      (''QUERY_COUNT'', PInt 2),
      (''SESSION_ID'', PInt 77),
      (''QUERY_START_TIME'', PTime 1700000123000000 (-480)),
      (''QUERY_TEXT'', PStr ''insert into t select x from s''),
      (''QUERY_TYPE'', PStr ''INSERT''),
      (''USER_NAME'', PStr ''ETL''),
      (''DIRECT_OBJECTS_ACCESSED'', doa),
      (''OBJECTS_MODIFIED'', om)]"

text \<open>A modified object whose column has a table source and a stage source that carries
  nothing but its domain, and an environment whose decoder knows its text.\<close>

definition sample_om_bare_stage :: string where
  \<open>sample_om_bare_stage = ''[{"objectName": "DB.SCH.T", "objectDomain": "Table", "columns": [{"columnName": "A", "directSources": [{"objectName": "DB.SCH.S", "objectDomain": "Table", "columnName": "X"}, {"objectDomain": "Stage"}]}]}]''\<close>

definition obj_T_bare_stage :: pyval where
  "obj_T_bare_stage = PDict [(''objectName'', PStr ''DB.SCH.T''), (''objectDomain'', PStr ''Table''),
     (''columns'', PList [PDict [(''columnName'', PStr ''A''),
        (''directSources'', PList [
           PDict [(''objectName'', PStr ''DB.SCH.S''), (''objectDomain'', PStr ''Table''),
                  (''columnName'', PStr ''X'')],
           PDict [(''objectDomain'', PStr ''Stage'')]])]])]"

definition sample_env_bare_stage :: env where
  "sample_env_bare_stage =
     sample_env\<lparr>loads := (\<lambda>s. if s = sample_om_bare_stage then Inr (PList [obj_T_bare_stage])
                              else sample_loads s)\<rparr>"

section \<open>The domain filter on the sources of a column\<close>

text \<open>The condition of the comprehension over \<^verbatim>\<open>directSources\<close> as a predicate on a
  source: its \<^verbatim>\<open>objectDomain\<close> is a string that is one of the table/view domains. It asks
  nothing else of the source.\<close>

definition table_view_source :: "env \<Rightarrow> pyval \<Rightarrow> bool" where
  "table_view_source E v =
     (case getitem v ''objectDomain'' of
        Inr (PStr d) \<Rightarrow> d \<in> set (ACCESS_HISTORY_TABLE_VIEW_DOMAINS E)
      | _ \<Rightarrow> False)"

section \<open>The parser on rows of the documented shape\<close>

text \<open>The state the loop over \<^verbatim>\<open>objects_modified\<close> ends in: untouched when there is
  no object, otherwise what the last object assigned.\<close>

definition state_of :: "env \<Rightarrow> modified_object list \<Rightarrow> string option \<times> ColumnLineageInfo list option
    \<Rightarrow> string option \<times> ColumnLineageInfo list option" where
  "state_of E ms st = (if ms = [] then st
     else (Some (urn_of E (m_objectName (last ms))), Some (lineage_of E (last ms))))"

text \<open>The warnings of that loop: one for every iteration that finds \<^verbatim>\<open>downstream\<close>
  already set to a non-empty string, that is, for every object but the last whose
  identifier is non-empty (the loop starts from \<open>ds\<close>).\<close>

definition warnings_of :: "env \<Rightarrow> row \<Rightarrow> string option \<Rightarrow> modified_object list \<Rightarrow> warning list" where
  "warnings_of E r ds ms =
     map (\<lambda>d. MultipleDownstream r)
       (filter downstream_set (butlast (ds # map (\<lambda>m. Some (urn_of E (m_objectName m))) ms)))"

text \<open>The \<^verbatim>\<open>column_usage\<close> dict after the loop over the accessed objects.\<close>

definition usage_of :: "env \<Rightarrow> accessed_object list \<Rightarrow> (string \<times> string set) list
    \<Rightarrow> (string \<times> string set) list" where
  "usage_of E as usage =
     fold (\<lambda>a. AList.update (urn_of E (a_objectName a)) (snowflake_identifier E ` set (a_columns a)))
       as usage"

text \<open>The entry of the raw row that ends up under the lower-cased key \<open>k\<close>: the last
  one whose key lower-cases to \<open>k\<close>.\<close>

definition raw_field :: "row \<Rightarrow> string \<Rightarrow> (string \<times> pyval) option" where
  "raw_field r k = find (\<lambda>kv. lower (fst kv) = k) (rev r)"

text \<open>The sample objects as typed records.\<close>

definition typed_S :: accessed_object where
  "typed_S = \<lparr>a_objectName = ''DB.SCH.S'', a_columns = [''X'']\<rparr>"

definition typed_S_again :: accessed_object where
  "typed_S_again = \<lparr>a_objectName = ''DB.SCH.S'', a_columns = [''Y'']\<rparr>"

definition typed_T :: modified_object where
  "typed_T = \<lparr>m_objectName = ''DB.SCH.T'', m_columns =
     [\<lparr>c_columnName = ''A'', c_directSources =
        [\<lparr>s_objectName = ''DB.SCH.S'', s_objectDomain = ''Table'', s_columnName = ''X''\<rparr>,
         \<lparr>s_objectName = ''DB.SCH.STG'', s_objectDomain = ''Stage'', s_columnName = ''$1''\<rparr>]\<rparr>]\<rparr>"

definition typed_T1 :: modified_object where
  "typed_T1 = \<lparr>m_objectName = ''DB.SCH.T1'', m_columns =
     [\<lparr>c_columnName = ''A'', c_directSources = []\<rparr>]\<rparr>"

definition typed_T2 :: modified_object where
  "typed_T2 = \<lparr>m_objectName = ''DB.SCH.T2'', m_columns = []\<rparr>"

section \<open>The text of the audit query\<close>

text \<open>
  \<^verbatim>\<open>_build_enriched_audit_log_query\<close> formats one SQL text. The window bounds enter as the
  integers \<^verbatim>\<open>start_time_millis\<close> and \<^verbatim>\<open>end_time_millis\<close> (their computation from the
  datetimes goes through a float and is not modelled), the bucket as the string
  \<^verbatim>\<open>bucket_duration.value\<close>, and the constant
  \<^verbatim>\<open>SnowflakeQuery.ACCESS_HISTORY_TABLE_VIEW_DOMAINS_FILTER\<close>, which is defined outside this
  file, as a parameter. The text is given one common table expression at a time.
\<close>

definition MAX_TABLES_PER_QUERY :: int where
  "MAX_TABLES_PER_QUERY = 20"

text \<open>\<^verbatim>\<open>str\<close> of an integer, as the f-string formats it.\<close>

function digits :: "int \<Rightarrow> string" where
  "digits n = (if n < 10 then [char_of (48 + n)] else digits (n div 10) @ [char_of (48 + n mod 10)])"
  by pat_completeness auto
termination
  by (relation "measure nat") auto

definition str_int :: "int \<Rightarrow> string" where
  "str_int i = (if i < 0 then ''-'' @ digits (- i) else digits i)"










section \<open>What the audit query computes\<close>

text \<open>
  The SQL of the text above, one function for each common table expression, over the
  rows of \<^verbatim>\<open>snowflake.account_usage.query_history\<close> and
  \<^verbatim>\<open>snowflake.account_usage.access_history\<close>. A relation is a list of rows (the order
  carries no meaning). Timestamps are integers in milliseconds, so that
  \<^verbatim>\<open>to_timestamp_ltz(n, 3)\<close> is \<open>n\<close>. Of the columns of \<^verbatim>\<open>query_history\<close> that the
  last select only passes on, three are kept. An array column is \<open>None\<close> when it is
  NULL. Strings compare as they are: the comparison of \<^verbatim>\<open>user_name\<close> with the quoted
  literals is sensitive to case. The built-in
  \<^verbatim>\<open>DATE_TRUNC(unit, CONVERT_TIMEZONE('UTC', t))\<close> is a parameter, and so are the strings
  listed in \<^verbatim>\<open>ACCESS_HISTORY_TABLE_VIEW_DOMAINS_FILTER\<close>.
\<close>

record query_history_row =
  qh_query_id :: string
  qh_start_time :: int
  qh_execution_status :: string
  qh_user_name :: string
  qh_query_parameterized_hash :: string
  qh_session_id :: int
  qh_query_text :: string
  qh_query_type :: string

record access_object =
  ao_objectName :: string
  ao_objectDomain :: string

record access_history_row =
  ah_query_id :: string
  ah_query_start_time :: int
  ah_user_name :: string
  ah_direct_objects_accessed :: "access_object list option"
  ah_objects_modified :: "access_object list option"

record params =
  p_start_time_millis :: int
  p_end_time_millis :: int
  p_time_bucket_size :: string
  p_deny_usernames :: "string list option"
  p_date_trunc :: "string \<Rightarrow> int \<Rightarrow> int"
  p_domains :: "string list"

text \<open>The predicate that \<^verbatim>\<open>users_clause\<close> denotes on a \<^verbatim>\<open>user_name\<close>.\<close>

definition users_ok :: "string list option \<Rightarrow> string \<Rightarrow> bool" where
  "users_ok deny_usernames user_name =
     (case deny_usernames of
        None \<Rightarrow> True
      | Some us \<Rightarrow> us = [] \<or> user_name \<notin> set (map upper us))"

text \<open>\<^verbatim>\<open>fingerprinted_queries\<close>: the successful queries of the window that pass the user
  filter; \<^verbatim>\<open>query_fingerprint\<close> is \<^verbatim>\<open>query_parameterized_hash\<close>.\<close>

definition fingerprinted_queries :: "params \<Rightarrow> query_history_row list \<Rightarrow> query_history_row list" where
  "fingerprinted_queries P query_history =
     filter (\<lambda>q. p_start_time_millis P \<le> qh_start_time q \<and>
                 qh_start_time q < p_end_time_millis P \<and>
                 qh_execution_status q = ''SUCCESS'' \<and>
                 users_ok (p_deny_usernames P) (qh_user_name q))
       query_history"

text \<open>\<^verbatim>\<open>deduplicated_queries\<close>: the rows are partitioned by
  \<^verbatim>\<open>(bucket_start_time, query_fingerprint)\<close>; each partition gives one row, the one that
  \<^verbatim>\<open>ROW_NUMBER() ... ORDER BY start_time DESC\<close> numbers 1, with the size of the partition
  as \<^verbatim>\<open>query_count\<close>. Among rows of equal \<^verbatim>\<open>start_time\<close> SQL may number any of them 1;
  \<open>latest\<close> takes the first of them.\<close>

definition partition_key :: "params \<Rightarrow> query_history_row \<Rightarrow> int \<times> string" where
  "partition_key P q =
     (p_date_trunc P (p_time_bucket_size P) (qh_start_time q), qh_query_parameterized_hash q)"

fun latest :: "query_history_row \<Rightarrow> query_history_row list \<Rightarrow> query_history_row" where
  "latest m [] = m"
| "latest m (q # qs) = latest (if qh_start_time m < qh_start_time q then q else m) qs"

record deduplicated_row =
  dq_query :: query_history_row
  dq_bucket_start_time :: int
  dq_query_fingerprint :: string
  dq_query_count :: nat

definition deduplicated_queries :: "params \<Rightarrow> query_history_row list \<Rightarrow> deduplicated_row list" where
  "deduplicated_queries P fq =
     concat (map (\<lambda>k. case filter (\<lambda>q. partition_key P q = k) fq of
                         [] \<Rightarrow> []
                       | q # qs \<Rightarrow>
                           [\<lparr>dq_query = latest q qs, dq_bucket_start_time = fst k,
                             dq_query_fingerprint = snd k, dq_query_count = length (q # qs)\<rparr>])
              (remdups (map (partition_key P) fq)))"

text \<open>\<^verbatim>\<open>raw_access_history\<close>: the access-history rows of the window that pass the user
  filter and belong to a deduplicated query.\<close>

definition raw_access_history ::
  "params \<Rightarrow> deduplicated_row list \<Rightarrow> access_history_row list \<Rightarrow> access_history_row list" where
  "raw_access_history P dq access_history =
     filter (\<lambda>a. p_start_time_millis P \<le> ah_query_start_time a \<and>
                 ah_query_start_time a < p_end_time_millis P \<and>
                 users_ok (p_deny_usernames P) (ah_user_name a) \<and>
                 ah_query_id a \<in> set (map (\<lambda>d. qh_query_id (dq_query d)) dq))
       access_history"

text \<open>\<^verbatim>\<open>filtered_access_history\<close>. The \<^verbatim>\<open>WHERE\<close> clause selects rows of
  \<^verbatim>\<open>raw_access_history\<close>, so the names \<^verbatim>\<open>direct_objects_accessed\<close> and
  \<^verbatim>\<open>objects_modified\<close> in it are that relation's columns, the arrays before \<^verbatim>\<open>FILTER\<close>;
  the select list then computes the output columns of the same names.
  \<^verbatim>\<open>array_size(x) > 0\<close> is not true for a NULL array; \<^verbatim>\<open>FILTER\<close> and \<^verbatim>\<open>ARRAY_SLICE\<close>
  of NULL are NULL; \<^verbatim>\<open>ARRAY_SLICE(x, 0, n)\<close> is the first \<open>n\<close> elements.\<close>

definition array_nonempty :: "'a list option \<Rightarrow> bool" where
  "array_nonempty x = (case x of None \<Rightarrow> False | Some xs \<Rightarrow> xs \<noteq> [])"

definition in_domains :: "params \<Rightarrow> access_object \<Rightarrow> bool" where
  "in_domains P obj \<longleftrightarrow> ao_objectDomain obj \<in> set (p_domains P)"

record filtered_row =
  fa_query_id :: string
  fa_query_start_time :: int
  fa_direct_objects_accessed :: "access_object list option"
  fa_objects_modified :: "access_object list option"

definition select_filtered :: "params \<Rightarrow> access_history_row \<Rightarrow> filtered_row" where
  "select_filtered P a =
     \<lparr>fa_query_id = ah_query_id a,
      fa_query_start_time = ah_query_start_time a,
      fa_direct_objects_accessed =
        map_option (\<lambda>xs. take (nat MAX_TABLES_PER_QUERY) (filter (in_domains P) xs))
          (ah_direct_objects_accessed a),
      fa_objects_modified =
        map_option (filter (in_domains P)) (ah_objects_modified a)\<rparr>"

definition filtered_access_history :: "params \<Rightarrow> access_history_row list \<Rightarrow> filtered_row list" where
  "filtered_access_history P raw =
     map (select_filtered P)
       (filter (\<lambda>a. array_nonempty (ah_direct_objects_accessed a) \<or>
                    array_nonempty (ah_objects_modified a)) raw)"

text \<open>\<^verbatim>\<open>query_access_history\<close>: the join on \<^verbatim>\<open>query_id\<close>, and the final select.\<close>

record output_row =
  out_bucket_start_time :: int
  out_query_id :: string
  out_query_fingerprint :: string
  out_query_count :: nat
  out_session_id :: int
  out_query_start_time :: int
  out_query_text :: string
  out_query_type :: string
  out_user_name :: string
  out_direct_objects_accessed :: "access_object list option"
  out_objects_modified :: "access_object list option"

definition join_row :: "deduplicated_row \<Rightarrow> filtered_row \<Rightarrow> output_row" where
  "join_row q a =
     \<lparr>out_bucket_start_time = dq_bucket_start_time q,
      out_query_id = qh_query_id (dq_query q),
      out_query_fingerprint = dq_query_fingerprint q,
      out_query_count = dq_query_count q,
      out_session_id = qh_session_id (dq_query q),
      out_query_start_time = qh_start_time (dq_query q),
      out_query_text = qh_query_text (dq_query q),
      out_query_type = qh_query_type (dq_query q),
      out_user_name = qh_user_name (dq_query q),
      out_direct_objects_accessed = fa_direct_objects_accessed a,
      out_objects_modified = fa_objects_modified a\<rparr>"

definition query_access_history :: "deduplicated_row list \<Rightarrow> filtered_row list \<Rightarrow> output_row list" where
  "query_access_history dq fa =
     concat (map (\<lambda>q. map (join_row q)
                        (filter (\<lambda>a. fa_query_id a = qh_query_id (dq_query q)) fa)) dq)"

definition enriched_audit_log ::
  "params \<Rightarrow> query_history_row list \<Rightarrow> access_history_row list \<Rightarrow> output_row list" where
  "enriched_audit_log P query_history access_history =
     (let dq = deduplicated_queries P (fingerprinted_queries P query_history)
      in query_access_history dq
           (filtered_access_history P (raw_access_history P dq access_history)))"

section \<open>A sample warehouse\<close>

text \<open>A window of one hour with hourly buckets, a denylist with one entry, and the four
  table/view domains. The sample \<^verbatim>\<open>DATE_TRUNC\<close> knows hours and days.\<close>

definition sample_params :: params where
  "sample_params =
     \<lparr>p_start_time_millis = 1699999200000,
      p_end_time_millis = 1700002800000,
      p_time_bucket_size = ''HOUR'',
      p_deny_usernames = Some [''SVC_ETL''],
      p_date_trunc = (\<lambda>unit t. if unit = ''HOUR'' then t - t mod 3600000
                               else if unit = ''DAY'' then t - t mod 86400000 else t),
      p_domains = [''Table'', ''External table'', ''View'', ''Materialized view'']\<rparr>"

definition sample_query :: "string \<Rightarrow> int \<Rightarrow> string \<Rightarrow> query_history_row" where
  "sample_query qid t u =
     \<lparr>qh_query_id = qid, qh_start_time = t, qh_execution_status = ''SUCCESS'',
      qh_user_name = u, qh_query_parameterized_hash = ''f00d'', qh_session_id = 77,
      qh_query_text = ''insert into t select x from s'', qh_query_type = ''INSERT''\<rparr>"

definition sample_access ::
  "string \<Rightarrow> int \<Rightarrow> access_object list option \<Rightarrow> access_object list option \<Rightarrow> access_history_row" where
  "sample_access qid t doa om =
     \<lparr>ah_query_id = qid, ah_query_start_time = t, ah_user_name = ''ETL'',
      ah_direct_objects_accessed = doa, ah_objects_modified = om\<rparr>"

definition table_object :: "int \<Rightarrow> access_object" where
  "table_object n = \<lparr>ao_objectName = ''DB.SCH.T'' @ str_int n, ao_objectDomain = ''Table''\<rparr>"

definition stage_object :: access_object where
  "stage_object = \<lparr>ao_objectName = ''DB.SCH.STG'', ao_objectDomain = ''Stage''\<rparr>"

text \<open>
  Two successful queries of the user \<^verbatim>\<open>ETL\<close> with the same fingerprint in the same hour,
  an access-history row of the later one with a stage and 21 tables accessed and 21 tables
  modified, an access-history row of it with one stage accessed and nothing modified, and
  the sample parameters with the denylist entry in lower case.
\<close>

definition sample_q1 :: query_history_row where
  "sample_q1 = sample_query ''q1'' 1700000000000 ''ETL''"

definition sample_q2 :: query_history_row where
  "sample_q2 = sample_query ''q2'' 1700000100000 ''ETL''"

definition sample_a2 :: access_history_row where
  "sample_a2 = sample_access ''q2'' 1700000100000 (Some (stage_object # map table_object [1..21]))
     (Some (map table_object [1..21]))"



section \<open>Lemmas about the parser\<close>

lemma bind_Inr: "bind (Inr x) f = f x"
  by (simp add: bind_def)

lemma bind_Inl: "bind (Inl e) f = Inl e"
  by (simp add: bind_def)

lemma dataset_of_view:
  "getitem v ''objectName'' = Inr (PStr n) \<Longrightarrow> dataset_of E v = Inr (urn_of E n)"
  by (simp add: dataset_of_def urn_of_def bind_Inr)

lemma column_of_view:
  "getitem v ''columnName'' = Inr (PStr c) \<Longrightarrow> column_of E v = Inr (snowflake_identifier E c)"
  by (simp add: column_of_def bind_Inr)

lemma direct_sources_view:
  "list_all2 source_view vs srcs \<Longrightarrow>
   direct_sources E vs = Inr (map (ref_of E) (filter (is_table_view E) srcs))"
proof (induction vs srcs rule: list_all2_induct)
  case Nil
  show ?case by simp
next
  case (Cons v vs s srcs)
  from Cons.hyps(1) have n: "getitem v ''objectName'' = Inr (PStr (s_objectName s))"
    and d: "getitem v ''objectDomain'' = Inr (PStr (s_objectDomain s))"
    and c: "getitem v ''columnName'' = Inr (PStr (s_columnName s))"
    by (simp_all add: source_view_def)
  have r: "column_ref_of E v = Inr (ref_of E s)"
    by (simp add: column_ref_of_def dataset_of_view [OF n] column_of_view [OF c] bind_Inr ref_of_def)
  show ?case
    by (simp add: d r Cons.IH bind_Inr is_table_view_def)
qed

lemma column_lineage_info_view:
  assumes "modified_column_view v c"
  shows "column_lineage_info E ds v = Inr (info_of E ds c)"
proof -
  from assms have n: "getitem v ''columnName'' = Inr (PStr (c_columnName c))"
    by (simp add: modified_column_view_def)
  from assms obtain vs where s: "getitem v ''directSources'' = Inr (PList vs)"
    and l: "list_all2 source_view vs (c_directSources c)"
    by (auto simp: modified_column_view_def split: sum.splits pyval.splits)
  show ?thesis
    by (simp add: column_lineage_info_def column_of_view [OF n] s direct_sources_view [OF l]
        bind_Inr info_of_def)
qed

lemma modified_columns_view:
  "list_all2 modified_column_view vs cs \<Longrightarrow>
   modified_columns E ds vs = Inr (map (info_of E ds) cs)"
  by (induction vs cs rule: list_all2_induct) (simp_all add: column_lineage_info_view bind_Inr)

lemma modified_body_view:
  assumes "modified_object_view v m"
  shows "modified_body E v = Inr (urn_of E (m_objectName m), lineage_of E m)"
proof -
  from assms have n: "getitem v ''objectName'' = Inr (PStr (m_objectName m))"
    by (simp add: modified_object_view_def)
  from assms obtain vs where s: "getitem v ''columns'' = Inr (PList vs)"
    and l: "list_all2 modified_column_view vs (m_columns m)"
    by (auto simp: modified_object_view_def split: sum.splits pyval.splits)
  show ?thesis
    by (simp add: modified_body_def dataset_of_view [OF n] s modified_columns_view [OF l]
        bind_Inr lineage_of_def)
qed

lemma modified_loop_view:
  "list_all2 modified_object_view vs ms \<Longrightarrow>
   modified_loop E r vs (ds, cl) ws = (ws @ warnings_of E r ds ms, Inr (state_of E ms (ds, cl)))"
proof (induction vs ms arbitrary: ds cl ws rule: list_all2_induct)
  case Nil
  show ?case by (simp add: warnings_of_def state_of_def)
next
  case (Cons v vs m ms)
  show ?case
    by (simp add: modified_body_view [OF Cons.hyps(1)] Cons.IH warnings_of_def state_of_def)
qed

lemma accessed_columns_view:
  "list_all2 accessed_column_view vs cs \<Longrightarrow>
   accessed_columns E vs S = Inr (S \<union> snowflake_identifier E ` set cs)"
proof (induction vs cs arbitrary: S rule: list_all2_induct)
  case Nil
  show ?case by simp
next
  case (Cons v vs c cs)
  from Cons.hyps(1) have "getitem v ''columnName'' = Inr (PStr c)"
    by (simp add: accessed_column_view_def)
  then show ?case
    by (simp add: column_of_view Cons.IH bind_Inr)
qed

lemma accessed_loop_view:
  "list_all2 accessed_object_view vs as \<Longrightarrow>
   accessed_loop E vs (ups, usage) =
     Inr (ups @ map (\<lambda>a. urn_of E (a_objectName a)) as, usage_of E as usage)"
proof (induction vs as arbitrary: ups usage rule: list_all2_induct)
  case Nil
  show ?case by (simp add: usage_of_def)
next
  case (Cons v vs a as)
  from Cons.hyps(1) have n: "getitem v ''objectName'' = Inr (PStr (a_objectName a))"
    by (simp add: accessed_object_view_def)
  from Cons.hyps(1) obtain cs where s: "getitem v ''columns'' = Inr (PList cs)"
    and l: "list_all2 accessed_column_view cs (a_columns a)"
    by (auto simp: accessed_object_view_def split: sum.splits pyval.splits)
  show ?case
    using Cons.IH
    by (simp add: dataset_of_view [OF n] s accessed_columns_view [OF l] bind_Inr usage_of_def)
qed

lemma assemble_ok:
  assumes "scalars_ok res"
  shows "\<exists>q. assemble E res acc st = Inr q \<and> upstreams q = fst acc \<and> downstream q = fst st
     \<and> column_lineage q = snd st \<and> column_usage q = snd acc \<and> confidence_score q = 1"
  using assms
  by (auto simp: scalars_ok_def assemble_def res_get_def bind_Inr
      split: option.splits pyval.splits)

lemma parse_view:
  assumes "row_view E r as ms"
  shows "\<exists>q. parse_audit_log_row E r = (warnings_of E r None ms, Inr q) \<and>
     upstreams q = map (\<lambda>a. urn_of E (a_objectName a)) as \<and>
     downstream q = fst (state_of E ms (None, None)) \<and>
     column_lineage q = snd (state_of E ms (None, None)) \<and>
     column_usage q = usage_of E as [] \<and> confidence_score q = 1"
proof -
  from assms obtain res where b: "build_res E r [] = Inr res"
    by (auto simp: row_view_def split: sum.splits)
  from assms b obtain vs where a: "map_of res ''direct_objects_accessed'' = Some (PList vs)"
    and la: "list_all2 accessed_object_view vs as"
    by (auto simp: row_view_def split: option.splits pyval.splits)
  from assms b obtain ws where m: "map_of res ''objects_modified'' = Some (PList ws)"
    and lm: "list_all2 modified_object_view ws ms"
    by (auto simp: row_view_def split: option.splits pyval.splits)
  from assms b have sc: "scalars_ok res"
    by (simp add: row_view_def)
  from assemble_ok [OF sc] obtain q where
    q: "assemble E res (map (\<lambda>a. urn_of E (a_objectName a)) as, usage_of E as [])
          (state_of E ms (None, None)) = Inr q"
    and f: "upstreams q = map (\<lambda>a. urn_of E (a_objectName a)) as"
      "downstream q = fst (state_of E ms (None, None))"
      "column_lineage q = snd (state_of E ms (None, None))"
      "column_usage q = usage_of E as []" "confidence_score q = 1"
    by fastforce
  have "parse_audit_log_row E r = (warnings_of E r None ms, Inr q)"
    using accessed_loop_view [OF la, of E "[]" "[]"] modified_loop_view [OF lm, of E r None None "[]"]
    by (simp add: parse_audit_log_row_def b res_get_def a m bind_Inr q)
  with f show ?thesis by blast
qed

lemma warnings_of_nonempty:
  assumes "ms \<noteq> []" and "\<forall>m\<in>set ms. urn_of E (m_objectName m) \<noteq> []"
  shows "warnings_of E r None ms = replicate (length ms - 1) (MultipleDownstream r)"
proof -
  let ?ds = "map (\<lambda>m. Some (urn_of E (m_objectName m))) ms"
  from assms(1) have b: "butlast (None # ?ds) = None # butlast ?ds"
    by simp
  have "\<forall>d\<in>set (butlast ?ds). downstream_set d"
    using assms(2) by (auto simp: downstream_set_def dest!: in_set_butlastD)
  then have f: "filter downstream_set (butlast ?ds) = butlast ?ds"
    by (simp add: filter_id_conv)
  have "warnings_of E r None ms = map (\<lambda>d. MultipleDownstream r) (butlast ?ds)"
    unfolding warnings_of_def b by (simp add: f downstream_set_def)
  then show ?thesis
    by (simp add: map_replicate_const)
qed

lemma sample_two_view:
  "row_view sample_env (sample_row (PStr sample_doa) (PStr sample_om_two)) [typed_S] [typed_T1, typed_T2]"
  by code_simp

lemma sample_two_urns:
  "\<forall>m\<in>set [typed_T1, typed_T2]. urn_of sample_env (m_objectName m) \<noteq> []"
  by (simp add: urn_of_def sample_env_def)

lemma sample_one_view:
  "row_view sample_env (sample_row (PStr sample_doa) (PStr sample_om)) [typed_S] [typed_T]"
  by code_simp

lemma sample_twice_view:
  "row_view sample_env (sample_row (PStr sample_doa_twice) (PStr sample_om)) [typed_S, typed_S_again] [typed_T]"
  by code_simp

section \<open>More than one modified object\<close>

text \<open>
  Claim C1, as amended. A row of the documented shape with more than one modified object,
  each with a non-empty identifier, is not dropped: the parser reports one warning for
  every modified object after the first (exactly one when there are two) and returns a
  record whose \<^verbatim>\<open>downstream\<close> is the identifier of the last modified object and whose
  \<^verbatim>\<open>column_lineage\<close> is built from the columns of that last object.
\<close>

theorem multiple_modified_last_wins:
  assumes "row_view E r as ms" and "1 < length ms"
    and "\<forall>m\<in>set ms. urn_of E (m_objectName m) \<noteq> []"
  shows "\<exists>q. parse_audit_log_row E r = (replicate (length ms - 1) (MultipleDownstream r), Inr q) \<and>
     downstream q = Some (urn_of E (m_objectName (last ms))) \<and>
     column_lineage q = Some (lineage_of E (last ms))"
proof -
  from assms(2) have ne: "ms \<noteq> []" by auto
  from parse_view [OF assms(1)] obtain q where
    "parse_audit_log_row E r = (warnings_of E r None ms, Inr q)"
    "downstream q = fst (state_of E ms (None, None))"
    "column_lineage q = snd (state_of E ms (None, None))"
    by blast
  with ne show ?thesis
    by (simp add: warnings_of_nonempty [OF ne assms(3)] state_of_def)
qed

text \<open>
  The sample row with the two modified objects \<^verbatim>\<open>DB.SCH.T1\<close> and \<^verbatim>\<open>DB.SCH.T2\<close>.
\<close>

theorem multiple_modified_last_wins_witness:
  "row_view sample_env (sample_row (PStr sample_doa) (PStr sample_om_two)) [typed_S] [typed_T1, typed_T2] \<and>
   1 < length [typed_T1, typed_T2] \<and>
   urn_of sample_env (m_objectName typed_T1) \<noteq> [] \<and>
   urn_of sample_env (m_objectName typed_T2) \<noteq> [] \<and>
   (\<exists>q. parse_audit_log_row sample_env (sample_row (PStr sample_doa) (PStr sample_om_two)) =
          ([MultipleDownstream (sample_row (PStr sample_doa) (PStr sample_om_two))], Inr q) \<and>
        downstream q = Some (urn_of sample_env ''DB.SCH.T2'') \<and>
        column_lineage q = Some [])"
  using multiple_modified_last_wins [OF sample_two_view _ sample_two_urns] sample_two_view sample_two_urns
  by (simp add: typed_T2_def lineage_of_def)

text \<open>
  On that row the record's \<^verbatim>\<open>downstream\<close> is the identifier of the second object,
  which is not the identifier of the first: the loop assigns \<^verbatim>\<open>downstream\<close> in every
  iteration.
\<close>

theorem multiple_modified_first_wins_counterexample:
  "map_sum id downstream (snd (parse_audit_log_row sample_env
      (sample_row (PStr sample_doa) (PStr sample_om_two)))) =
     Inr (Some ''urn:li:dataset:(urn:li:dataPlatform:snowflake,db.sch.t2,PROD)'') \<and>
   urn_of sample_env ''DB.SCH.T1'' = ''urn:li:dataset:(urn:li:dataPlatform:snowflake,db.sch.t1,PROD)''"
  by code_simp

section \<open>Exactly one modified object\<close>

text \<open>
  Claim C6. A row of the documented shape with exactly one modified object (and any
  number of accessed objects, in particular at most 20) makes the parser return one
  record, without a warning, whose \<^verbatim>\<open>downstream\<close> is that object's identifier and whose
  \<^verbatim>\<open>column_lineage\<close> has one entry for each entry of the object's \<^verbatim>\<open>columns\<close> array.
\<close>

theorem single_modified_object:
  assumes "row_view E r as [m]"
  shows "\<exists>q. parse_audit_log_row E r = ([], Inr q) \<and>
     downstream q = Some (urn_of E (m_objectName m)) \<and>
     (\<exists>cl. column_lineage q = Some cl \<and> length cl = length (m_columns m))"
proof -
  from parse_view [OF assms] obtain q where
    "parse_audit_log_row E r = (warnings_of E r None [m], Inr q)"
    "downstream q = fst (state_of E [m] (None, None))"
    "column_lineage q = snd (state_of E [m] (None, None))"
    by blast
  then show ?thesis
    by (simp add: warnings_of_def downstream_set_def state_of_def lineage_of_def)
qed

text \<open>
  The sample row of the scenario: \<^verbatim>\<open>DB.SCH.T\<close> with its one column \<^verbatim>\<open>A\<close>.
\<close>

theorem single_modified_object_witness:
  "row_view sample_env (sample_row (PStr sample_doa) (PStr sample_om)) [typed_S] [typed_T] \<and>
   (\<exists>q. parse_audit_log_row sample_env (sample_row (PStr sample_doa) (PStr sample_om)) = ([], Inr q) \<and>
      downstream q = Some (urn_of sample_env ''DB.SCH.T'') \<and>
      (\<exists>cl. column_lineage q = Some cl \<and> length cl = 1))"
  using single_modified_object [OF sample_one_view] sample_one_view
  by (simp add: typed_T_def)

section \<open>The upstreams list\<close>

text \<open>
  Claim C8, as amended. In the record of a row of the documented shape,
  \<^verbatim>\<open>upstreams\<close> lists the identifiers of the accessed objects in their order of appearance
  in \<^verbatim>\<open>direct_objects_accessed\<close>, one entry for each accessed object: an object that
  appears twice is listed twice.
\<close>

theorem upstreams_in_order_with_duplicates:
  assumes "row_view E r as ms"
  shows "\<exists>q. snd (parse_audit_log_row E r) = Inr q \<and>
     upstreams q = map (\<lambda>a. urn_of E (a_objectName a)) as \<and>
     length (upstreams q) = length as"
  using parse_view [OF assms] by fastforce

text \<open>
  The sample row that accesses \<^verbatim>\<open>DB.SCH.S\<close> twice.
\<close>

theorem upstreams_in_order_with_duplicates_witness:
  "row_view sample_env (sample_row (PStr sample_doa_twice) (PStr sample_om)) [typed_S, typed_S_again] [typed_T] \<and>
   (\<exists>q. snd (parse_audit_log_row sample_env (sample_row (PStr sample_doa_twice) (PStr sample_om))) = Inr q \<and>
      upstreams q = [urn_of sample_env ''DB.SCH.S'', urn_of sample_env ''DB.SCH.S''])"
  using upstreams_in_order_with_duplicates [OF sample_twice_view] sample_twice_view
  by (auto simp: typed_S_def typed_S_again_def)

text \<open>
  On that row the \<^verbatim>\<open>upstreams\<close> list of the record has a duplicate: the parser
  appends to a list and never looks for the identifier in it.
\<close>

theorem upstreams_distinct_counterexample:
  "map_sum id (\<lambda>q. distinct (upstreams q)) (snd (parse_audit_log_row sample_env
      (sample_row (PStr sample_doa_twice) (PStr sample_om)))) = Inr False"
  by code_simp

section \<open>The driver catches every failure\<close>

text \<open>
  Claim C9. For every sequence of rows of the cursor, the driver handles each row on its
  own: the report receives the parser's warnings for the row and, when the parser raised,
  exactly one more warning that carries the row and the exception; a record is yielded
  exactly for the rows the parser returned one for, in the order of the rows. So a row
  that fails neither stops the loop nor changes what the other rows yield.
\<close>

theorem fetch_rows_catches_every_failure:
  "fetch_rows E rs =
     (concat (map (\<lambda>r. fst (parse_audit_log_row E r) @
                (case snd (parse_audit_log_row E r) of
                   Inl e \<Rightarrow> [ErrorParsingRow r e]
                 | Inr q \<Rightarrow> [])) rs),
      concat (map (\<lambda>r. case snd (parse_audit_log_row E r) of
                   Inl e \<Rightarrow> []
                 | Inr q \<Rightarrow> [q]) rs))"
  by (induction rs) (auto split: prod.splits sum.splits)

section \<open>Lemmas about arbitrary rows\<close>

lemma find_snoc:
  "find P (xs @ [x]) = (case find P xs of None \<Rightarrow> (if P x then Some x else None) | Some y \<Rightarrow> Some y)"
  by (induction xs) auto

lemma raw_field_Cons:
  "raw_field ((key, v) # kvs) k =
     (case raw_field kvs k of
        None \<Rightarrow> (if lower key = k then Some (key, v) else None)
      | Some y \<Rightarrow> Some y)"
  by (simp add: raw_field_def find_snoc)

lemma build_res_keep:
  "build_res E r acc = Inr res \<Longrightarrow> raw_field r k = None \<Longrightarrow> map_of res k = map_of acc k"
proof (induction r arbitrary: acc)
  case Nil
  then show ?case by simp
next
  case (Cons kv kvs)
  obtain key v where kv: "kv = (key, v)" by (cases kv)
  from Cons.prems(2) have n: "raw_field kvs k = None" and l: "lower key \<noteq> k"
    by (auto simp: kv raw_field_Cons split: option.splits if_splits)
  from Cons.prems(1) obtain v' where "build_res E kvs (AList.update (lower key) v' acc) = Inr res"
    by (auto simp: kv bind_def split: sum.splits)
  from Cons.IH [OF this n] l show ?case
    by (simp add: update_conv')
qed

lemma build_res_field:
  "build_res E r acc = Inr res \<Longrightarrow> raw_field r k = Some (key, v) \<Longrightarrow>
   (if key \<in> set json_fields \<and> truthy v then json_loads E v else Inr v) = Inr v' \<Longrightarrow>
   map_of res k = Some v'"
proof (induction r arbitrary: acc)
  case Nil
  then show ?case by (simp add: raw_field_def)
next
  case (Cons kv kvs)
  obtain key0 v0 where kv: "kv = (key0, v0)" by (cases kv)
  from Cons.prems(1) obtain w where
    w: "(if key0 \<in> set json_fields \<and> truthy v0 then json_loads E v0 else Inr v0) = Inr w"
    and b: "build_res E kvs (AList.update (lower key0) w acc) = Inr res"
    by (auto simp: kv bind_def split: sum.splits)
  show ?case
  proof (cases "raw_field kvs k")
    case None
    with Cons.prems(2) have e: "key0 = key" "v0 = v" "lower key0 = k"
      by (auto simp: kv raw_field_Cons split: if_splits)
    from build_res_keep [OF b None] e w Cons.prems(3) show ?thesis
      by (auto simp: update_conv')
  next
    case (Some y)
    with Cons.prems(2) have "raw_field kvs k = Some (key, v)"
      by (simp add: kv raw_field_Cons)
    from Cons.IH [OF b this Cons.prems(3)] show ?thesis .
  qed
qed

lemma assemble_fields:
  "assemble E res acc st = Inr q \<Longrightarrow>
   upstreams q = fst acc \<and> downstream q = fst st \<and> column_lineage q = snd st \<and>
   column_usage q = snd acc"
  by (auto simp: assemble_def bind_def split: sum.splits)

lemma accessed_loop_length:
  "accessed_loop E vs (ups, usage) = Inr (ups', usage') \<Longrightarrow> length ups' = length ups + length vs"
proof (induction vs arbitrary: ups usage)
  case Nil
  then show ?case by simp
next
  case (Cons v vs)
  from Cons.prems obtain d c where "accessed_loop E vs (ups @ [d], AList.update d c usage) = Inr (ups', usage')"
    by (auto simp: bind_def split: sum.splits)
  from Cons.IH [OF this] show ?case by simp
qed

lemma modified_loop_state:
  "modified_loop E r vs (ds, cl) ws = (ws', Inr (ds', cl')) \<Longrightarrow>
   (if vs = [] then ds' = ds \<and> cl' = cl else ds' \<noteq> None \<and> cl' \<noteq> None)"
proof (induction vs arbitrary: ds cl ws)
  case Nil
  then show ?case by simp
next
  case (Cons v vs)
  from Cons.prems obtain d c w where "modified_loop E r vs (Some d, Some c) w = (ws', Inr (ds', cl'))"
    by (auto simp: Let_def split: sum.splits prod.splits)
  from Cons.IH [OF this] show ?case by (auto split: if_splits)
qed

lemma parse_success:
  assumes "snd (parse_audit_log_row E r) = Inr q"
  obtains res doa om objs acc mods ws st where
    "build_res E r [] = Inr res"
    "map_of res ''direct_objects_accessed'' = Some doa"
    "map_of res ''objects_modified'' = Some om"
    "iter doa = Inr objs" "accessed_loop E objs ([], []) = Inr acc"
    "iter om = Inr mods" "modified_loop E r mods (None, None) [] = (ws, Inr st)"
    "assemble E res acc st = Inr q"
  using assms
  by (auto simp: parse_audit_log_row_def res_get_def bind_def Let_def
      split: sum.splits option.splits prod.splits)

lemma parse_failure:
  assumes "\<And>res. build_res E r [] = Inr res \<Longrightarrow>
     map_of res ''direct_objects_accessed'' = Some PNone \<or> map_of res ''objects_modified'' = Some PNone"
  shows "\<exists>e. parse_audit_log_row E r = ([], Inl e)"
proof (cases "build_res E r []")
  case (Inl e)
  then show ?thesis by (simp add: parse_audit_log_row_def)
next
  case (Inr res)
  from assms [OF Inr] show ?thesis
    by (auto simp: parse_audit_log_row_def Inr res_get_def bind_def
        split: sum.splits option.splits)
qed

section \<open>Column-lineage upstreams\<close>

lemma domain_in_True:
  "bind (getitem v ''objectDomain'') (domain_in E) = Inr keep \<Longrightarrow> keep = table_view_source E v"
  by (cases "getitem v ''objectDomain''"; simp add: bind_def table_view_source_def)
     (rename_tac d, case_tac d, auto)

lemma direct_sources_kept:
  "direct_sources E vs = Inr refs \<Longrightarrow>
   map (column_ref_of E) (filter (table_view_source E) vs) = map Inr refs"
proof (induction vs arbitrary: refs)
  case Nil
  then show ?case by auto
next
  case (Cons v vs)
  from Cons.prems obtain d keep where d: "getitem v ''objectDomain'' = Inr d"
    and k: "domain_in E d = Inr keep"
    by (auto simp: bind_def split: sum.splits)
  from d k have kv: "keep = table_view_source E v"
    by (intro domain_in_True) (simp add: bind_def)
  show ?case
  proof (cases keep)
    case True
    with Cons.prems d k obtain r0 rs where "column_ref_of E v = Inr r0"
      "direct_sources E vs = Inr rs" "refs = r0 # rs"
      by (auto simp: bind_def split: sum.splits)
    with Cons.IH [of rs] True kv show ?thesis by simp
  next
    case False
    with Cons.prems d k have "direct_sources E vs = Inr refs"
      by (simp add: bind_def)
    with Cons.IH [of refs] False kv show ?thesis by simp
  qed
qed

lemma direct_sources_idem:
  "direct_sources E vs = Inr refs \<Longrightarrow>
   direct_sources E (filter (table_view_source E) vs) = Inr refs"
proof (induction vs arbitrary: refs)
  case Nil
  then show ?case by auto
next
  case (Cons v vs)
  from Cons.prems obtain d keep where d: "getitem v ''objectDomain'' = Inr d"
    and k: "domain_in E d = Inr keep"
    by (auto simp: bind_def split: sum.splits)
  from d k have kv: "keep = table_view_source E v"
    by (intro domain_in_True) (simp add: bind_def)
  show ?case
  proof (cases keep)
    case True
    with Cons.prems d k obtain r0 rs where r: "column_ref_of E v = Inr r0"
      "direct_sources E vs = Inr rs" "refs = r0 # rs"
      by (auto simp: bind_def split: sum.splits)
    from Cons.IH [OF r(2)] True kv d k r show ?thesis by (simp add: bind_def)
  next
    case False
    with Cons.prems d k have "direct_sources E vs = Inr refs"
      by (simp add: bind_def)
    with Cons.IH [of refs] False kv show ?thesis by simp
  qed
qed

lemma modified_columns_nth:
  "modified_columns E ds cs = Inr cl \<Longrightarrow>
   length cl = length cs \<and> (\<forall>i<length cs. column_lineage_info E ds (cs ! i) = Inr (cl ! i))"
proof (induction cs arbitrary: cl)
  case Nil
  then show ?case by auto
next
  case (Cons c cs)
  from Cons.prems obtain e es where e: "column_lineage_info E ds c = Inr e"
    "modified_columns E ds cs = Inr es" "cl = e # es"
    by (auto simp: bind_def split: sum.splits)
  from Cons.IH [OF e(2)] e(1,3) show ?case
    by (auto simp: nth_Cons split: nat.splits)
qed

lemma column_lineage_info_sources:
  "column_lineage_info E ds c = Inr e \<Longrightarrow>
   \<exists>ss. bind (getitem c ''directSources'') iter = Inr ss \<and> direct_sources E ss = Inr (cl_upstreams e)"
  by (auto simp: column_lineage_info_def bind_def split: sum.splits)

lemma modified_body_columns:
  "modified_body E obj = Inr (d, c) \<Longrightarrow>
   \<exists>cs. bind (getitem obj ''columns'') iter = Inr cs \<and> modified_columns E d cs = Inr c"
  by (auto simp: modified_body_def bind_def split: sum.splits)

lemma modified_loop_last:
  "modified_loop E r vs (ds, cl) ws = (ws', Inr (ds', cl')) \<Longrightarrow> vs \<noteq> [] \<Longrightarrow>
   \<exists>d c. ds' = Some d \<and> cl' = Some c \<and> modified_body E (last vs) = Inr (d, c)"
proof (induction vs arbitrary: ds cl ws)
  case Nil
  then show ?case by simp
next
  case (Cons v vs)
  from Cons.prems(1) obtain d c w where b: "modified_body E v = Inr (d, c)"
    and l: "modified_loop E r vs (Some d, Some c) w = (ws', Inr (ds', cl'))"
    by (auto simp: Let_def split: sum.splits prod.splits)
  show ?case
  proof (cases "vs = []")
    case True
    with l b show ?thesis by simp
  next
    case False
    from Cons.IH [OF l False] False show ?thesis by simp
  qed
qed

text \<open>
  Claim C7. Take any row for which the parser returns a record, and let the record have
  a column lineage. Then \<^verbatim>\<open>objects_modified\<close> is not empty, the lineage has one entry for
  each column of its last object, and for the i-th column, with \<open>ss\<close> its
  \<^verbatim>\<open>directSources\<close>: the upstreams of the i-th entry are, in order, the references of
  exactly those sources in \<open>ss\<close> whose \<^verbatim>\<open>objectDomain\<close> is a table/view domain (a
  stage source is never among them, whatever else it carries), and running the
  comprehension on the sources already filtered gives the same upstreams again.
\<close>

theorem column_lineage_only_table_view_sources:
  assumes "snd (parse_audit_log_row E r) = Inr q" and "column_lineage q = Some cl"
  shows "\<exists>res mods cs.
     build_res E r [] = Inr res \<and>
     bind (res_get res ''objects_modified'') iter = Inr mods \<and> mods \<noteq> [] \<and>
     bind (getitem (last mods) ''columns'') iter = Inr cs \<and>
     length cl = length cs \<and>
     (\<forall>i<length cs. \<exists>ss.
        bind (getitem (cs ! i) ''directSources'') iter = Inr ss \<and>
        map (column_ref_of E) (filter (table_view_source E) ss) = map Inr (cl_upstreams (cl ! i)) \<and>
        direct_sources E (filter (table_view_source E) ss) = Inr (cl_upstreams (cl ! i)))"
proof -
  from assms(1) obtain res om mods acc ws st where b: "build_res E r [] = Inr res"
    and o: "map_of res ''objects_modified'' = Some om" "iter om = Inr mods"
    and l: "modified_loop E r mods (None, None) [] = (ws, Inr st)"
    and a: "assemble E res acc st = Inr q"
    by (auto elim!: parse_success)
  obtain sd sc where st: "st = (sd, sc)" by (cases st)
  from assemble_fields [OF a] assms(2) st have s: "sc = Some cl" by simp
  from l st have l': "modified_loop E r mods (None, None) [] = (ws, Inr (sd, sc))" by simp
  from modified_loop_state [OF l'] s have ne: "mods \<noteq> []" by (auto split: if_splits)
  from modified_loop_last [OF l' ne] s
  obtain d where m: "modified_body E (last mods) = Inr (d, cl)" by auto
  from modified_body_columns [OF m] obtain cs where
    cs: "bind (getitem (last mods) ''columns'') iter = Inr cs" "modified_columns E d cs = Inr cl"
    by blast
  from modified_columns_nth [OF cs(2)] have len: "length cl = length cs"
    and nth: "\<forall>i<length cs. column_lineage_info E d (cs ! i) = Inr (cl ! i)"
    by simp_all
  have "\<exists>ss. bind (getitem (cs ! i) ''directSources'') iter = Inr ss \<and>
        map (column_ref_of E) (filter (table_view_source E) ss) = map Inr (cl_upstreams (cl ! i)) \<and>
        direct_sources E (filter (table_view_source E) ss) = Inr (cl_upstreams (cl ! i))"
    if "i < length cs" for i
  proof -
    from nth that have "column_lineage_info E d (cs ! i) = Inr (cl ! i)" by simp
    from column_lineage_info_sources [OF this] obtain ss where
      "bind (getitem (cs ! i) ''directSources'') iter = Inr ss"
      "direct_sources E ss = Inr (cl_upstreams (cl ! i))"
      by blast
    with direct_sources_kept direct_sources_idem show ?thesis by blast
  qed
  moreover from o have "bind (res_get res ''objects_modified'') iter = Inr mods"
    by (simp add: res_get_def bind_def)
  ultimately show ?thesis
    using b ne cs(1) len by blast
qed

text \<open>
  A row whose modified column has a table source and a stage source that carries only
  its domain: the parser returns a record, and the one upstream of the column is the
  table source.
\<close>

lemma sample_bare_stage_record:
  "map_sum id column_lineage (snd (parse_audit_log_row sample_env_bare_stage
      (sample_row (PStr sample_doa) (PStr sample_om_bare_stage)))) =
     Inr (Some [\<lparr>cl_downstream =
                   \<lparr>table = ''urn:li:dataset:(urn:li:dataPlatform:snowflake,db.sch.t,PROD)'',
                    column = ''a''\<rparr>,
                 cl_upstreams =
                   [\<lparr>table = ''urn:li:dataset:(urn:li:dataPlatform:snowflake,db.sch.s,PROD)'',
                     column = ''x''\<rparr>]\<rparr>])"
  by code_simp

theorem column_lineage_only_table_view_sources_witness:
  "\<exists>q cl. snd (parse_audit_log_row sample_env_bare_stage
              (sample_row (PStr sample_doa) (PStr sample_om_bare_stage))) = Inr q \<and>
     column_lineage q = Some cl \<and>
     cl_upstreams (cl ! 0) =
       [\<lparr>table = ''urn:li:dataset:(urn:li:dataPlatform:snowflake,db.sch.s,PROD)'', column = ''x''\<rparr>] \<and>
     (\<exists>cs ss. length cl = length cs \<and>
        bind (getitem (cs ! 0) ''directSources'') iter = Inr ss \<and>
        direct_sources sample_env_bare_stage (filter (table_view_source sample_env_bare_stage) ss) =
          Inr (cl_upstreams (cl ! 0)))"
proof -
  let ?r = "sample_row (PStr sample_doa) (PStr sample_om_bare_stage)"
  let ?cl = "[\<lparr>cl_downstream =
                   \<lparr>table = ''urn:li:dataset:(urn:li:dataPlatform:snowflake,db.sch.t,PROD)'',
                    column = ''a''\<rparr>,
                 cl_upstreams =
                   [\<lparr>table = ''urn:li:dataset:(urn:li:dataPlatform:snowflake,db.sch.s,PROD)'',
                     column = ''x''\<rparr>]\<rparr>]"
  from sample_bare_stage_record obtain q where
    q: "snd (parse_audit_log_row sample_env_bare_stage ?r) = Inr q" and cl: "column_lineage q = Some ?cl"
    by (cases "snd (parse_audit_log_row sample_env_bare_stage ?r)") auto
  from column_lineage_only_table_view_sources [OF q cl] obtain cs where
    len: "length ?cl = length cs"
    and nth: "\<forall>i<length cs. \<exists>ss.
        bind (getitem (cs ! i) ''directSources'') iter = Inr ss \<and>
        map (column_ref_of sample_env_bare_stage) (filter (table_view_source sample_env_bare_stage) ss) =
          map Inr (cl_upstreams (?cl ! i)) \<and>
        direct_sources sample_env_bare_stage (filter (table_view_source sample_env_bare_stage) ss) =
          Inr (cl_upstreams (?cl ! i))"
    by blast
  from len have "0 < length cs" by (cases cs) auto
  with nth obtain ss where "bind (getitem (cs ! 0) ''directSources'') iter = Inr ss"
    "direct_sources sample_env_bare_stage (filter (table_view_source sample_env_bare_stage) ss) =
          Inr (cl_upstreams (?cl ! 0))"
    by blast
  with q cl len show ?thesis
    by (intro exI [of _ q] exI [of _ ?cl] conjI) auto
qed

section \<open>A null array\<close>

lemma sample_null_field:
  "raw_field (sample_row PNone (PStr sample_om)) ''direct_objects_accessed'' =
     Some (''DIRECT_OBJECTS_ACCESSED'', PNone)"
  by code_simp

lemma sample_empty_fields:
  "raw_field (sample_row (PStr ''[]'') (PStr ''[]'')) ''direct_objects_accessed'' =
     Some (''DIRECT_OBJECTS_ACCESSED'', PStr ''[]'') \<and>
   raw_field (sample_row (PStr ''[]'') (PStr ''[]'')) ''objects_modified'' =
     Some (''OBJECTS_MODIFIED'', PStr ''[]'') \<and>
   loads sample_env ''[]'' = Inr (PList []) \<and>
   \<not> isl (snd (parse_audit_log_row sample_env (sample_row (PStr ''[]'') (PStr ''[]''))))"
  by code_simp

text \<open>
  Claim C10. When the row holds \<^verbatim>\<open>None\<close> under \<^verbatim>\<open>DIRECT_OBJECTS_ACCESSED\<close> or under
  \<^verbatim>\<open>OBJECTS_MODIFIED\<close> (whatever the case of the key), the parser raises, before any
  warning of its own, and the driver reports the row as a parse warning and yields no
  record for it. A field that is present and decodes to an array gives one upstream for
  each element, and a downstream and a column lineage exactly when the array of modified
  objects is not empty: among these values only the empty array gives zero objects.
\<close>

theorem null_array_raises:
  "(raw_field r ''direct_objects_accessed'' = Some (k, PNone) \<or>
    raw_field r ''objects_modified'' = Some (k, PNone) \<longrightarrow>
      (\<exists>e. parse_audit_log_row E r = ([], Inl e) \<and>
           fetch_rows E [r] = ([ErrorParsingRow r e], []))) \<and>
   (raw_field r ''direct_objects_accessed'' = Some (''DIRECT_OBJECTS_ACCESSED'', PStr s) \<and>
    s \<noteq> [] \<and> loads E s = Inr (PList xs) \<and> snd (parse_audit_log_row E r) = Inr q \<longrightarrow>
      length (upstreams q) = length xs) \<and>
   (raw_field r ''objects_modified'' = Some (''OBJECTS_MODIFIED'', PStr s') \<and>
    s' \<noteq> [] \<and> loads E s' = Inr (PList xs') \<and> snd (parse_audit_log_row E r) = Inr q' \<longrightarrow>
      (downstream q' = None \<longleftrightarrow> xs' = []) \<and> (column_lineage q' = None \<longleftrightarrow> xs' = []))"
proof -
  have p1: "\<exists>e. parse_audit_log_row E r = ([], Inl e) \<and>
      fetch_rows E [r] = ([ErrorParsingRow r e], [])"
    if a: "raw_field r ''direct_objects_accessed'' = Some (k, PNone) \<or>
    raw_field r ''objects_modified'' = Some (k, PNone)"
  proof -
  have "\<exists>e. parse_audit_log_row E r = ([], Inl e)"
  proof (rule parse_failure)
    fix res
    assume b: "build_res E r [] = Inr res"
    from a show "map_of res ''direct_objects_accessed'' = Some PNone \<or>
      map_of res ''objects_modified'' = Some PNone"
    proof
      assume "raw_field r ''direct_objects_accessed'' = Some (k, PNone)"
      from build_res_field [OF b this, of PNone] show ?thesis by simp
    next
      assume "raw_field r ''objects_modified'' = Some (k, PNone)"
      from build_res_field [OF b this, of PNone] show ?thesis by simp
    qed
  qed
  then show ?thesis
    by auto
  qed
  have p2: "length (upstreams q) = length xs"
    if a: "raw_field r ''direct_objects_accessed'' = Some (''DIRECT_OBJECTS_ACCESSED'', PStr s) \<and>
    s \<noteq> [] \<and> loads E s = Inr (PList xs) \<and> snd (parse_audit_log_row E r) = Inr q"
  proof -
  from a obtain res objs acc st where b: "build_res E r [] = Inr res"
    and d: "\<exists>doa. map_of res ''direct_objects_accessed'' = Some doa \<and> iter doa = Inr objs"
    and l: "accessed_loop E objs ([], []) = Inr acc" and q: "assemble E res acc st = Inr q"
    by (auto elim!: parse_success)
  from a have "map_of res ''direct_objects_accessed'' = Some (PList xs)"
    by (intro build_res_field [OF b]) (auto simp: json_fields_def json_loads_def)
  with d have "objs = xs" by auto
  with l accessed_loop_length [of E objs "[]" "[]" "fst acc" "snd acc"] assemble_fields [OF q]
  show ?thesis by simp
  qed
  have p3: "(downstream q' = None \<longleftrightarrow> xs' = []) \<and> (column_lineage q' = None \<longleftrightarrow> xs' = [])"
    if a: "raw_field r ''objects_modified'' = Some (''OBJECTS_MODIFIED'', PStr s') \<and>
    s' \<noteq> [] \<and> loads E s' = Inr (PList xs') \<and> snd (parse_audit_log_row E r) = Inr q'"
  proof -
  from a obtain res mods acc ws st where b: "build_res E r [] = Inr res"
    and d: "\<exists>om. map_of res ''objects_modified'' = Some om \<and> iter om = Inr mods"
    and l: "modified_loop E r mods (None, None) [] = (ws, Inr st)"
    and q: "assemble E res acc st = Inr q'"
    by (auto elim!: parse_success)
  from a have "map_of res ''objects_modified'' = Some (PList xs')"
    by (intro build_res_field [OF b]) (auto simp: json_fields_def json_loads_def)
  with d have m: "mods = xs'" by auto
  from l modified_loop_state [of E r mods None None "[]" ws "fst st" "snd st"]
  have "if mods = [] then fst st = None \<and> snd st = None else fst st \<noteq> None \<and> snd st \<noteq> None"
    by simp
  with m assemble_fields [OF q]
  show ?thesis
    by (auto split: if_splits)
  qed
  from p1 p2 p3 show ?thesis
    by blast
qed

text \<open>
  The sample row with a null \<^verbatim>\<open>DIRECT_OBJECTS_ACCESSED\<close>, and the sample row whose two
  arrays are the text \<^verbatim>\<open>[]\<close>.
\<close>

theorem null_array_raises_witness:
  "raw_field (sample_row PNone (PStr sample_om)) ''direct_objects_accessed'' =
     Some (''DIRECT_OBJECTS_ACCESSED'', PNone) \<and>
   (\<exists>e. parse_audit_log_row sample_env (sample_row PNone (PStr sample_om)) = ([], Inl e) \<and>
        fetch_rows sample_env [sample_row PNone (PStr sample_om)] =
          ([ErrorParsingRow (sample_row PNone (PStr sample_om)) e], [])) \<and>
   raw_field (sample_row (PStr ''[]'') (PStr ''[]'')) ''direct_objects_accessed'' =
     Some (''DIRECT_OBJECTS_ACCESSED'', PStr ''[]'') \<and>
   raw_field (sample_row (PStr ''[]'') (PStr ''[]'')) ''objects_modified'' =
     Some (''OBJECTS_MODIFIED'', PStr ''[]'') \<and>
   loads sample_env ''[]'' = Inr (PList []) \<and>
   (\<exists>q. snd (parse_audit_log_row sample_env (sample_row (PStr ''[]'') (PStr ''[]''))) = Inr q \<and>
        upstreams q = [] \<and> downstream q = None \<and> column_lineage q = None)"
proof -
  let ?r = "sample_row (PStr ''[]'') (PStr ''[]'')"
  from sample_empty_fields obtain q where q: "snd (parse_audit_log_row sample_env ?r) = Inr q"
    by (cases "snd (parse_audit_log_row sample_env ?r)") auto
  from null_array_raises [of "sample_row PNone (PStr sample_om)" "''DIRECT_OBJECTS_ACCESSED''" sample_env]
    sample_null_field
  have 1: "\<exists>e. parse_audit_log_row sample_env (sample_row PNone (PStr sample_om)) = ([], Inl e) \<and>
        fetch_rows sample_env [sample_row PNone (PStr sample_om)] =
          ([ErrorParsingRow (sample_row PNone (PStr sample_om)) e], [])"
    by blast
  from null_array_raises [of ?r _ sample_env "''[]''" "[]" q "''[]''" "[]" q] sample_empty_fields q
  have 2: "upstreams q = [] \<and> downstream q = None \<and> column_lineage q = None"
    by simp
  from 1 2 q sample_null_field sample_empty_fields show ?thesis
    by blast
qed

text \<open>
  The driver on these two rows, in this order: one warning with the TypeError for the
  first row, one record with no upstreams and no downstream for the second.
\<close>

lemma sample_driver:
  "fetch_rows sample_env [sample_row PNone (PStr sample_om), sample_row (PStr ''[]'') (PStr ''[]'')] =
     ([ErrorParsingRow (sample_row PNone (PStr sample_om)) TypeError],
      [\<lparr>query_id = PStr ''f00d'', query_text = PStr ''insert into t select x from s'',
        upstreams = [], downstream = None, column_lineage = None, column_usage = [],
        confidence_score = 1, query_count = PInt 2, user = ''urn:li:corpuser:ETL'',
        timestamp = (1700000123000000, 0), session_id = PInt 77, query_type = INSERT\<rparr>])"
  by code_simp

section \<open>Lemmas about the audit query\<close>

lemma filter_concat_map_key:
  assumes "\<And>a d. d \<in> set (f a) \<Longrightarrow> key d = g a"
  shows "filter (\<lambda>d. key d = k) (concat (map f as)) = concat (map f (filter (\<lambda>a. g a = k) as))"
proof (induction as)
  case Nil
  show ?case by simp
next
  case (Cons a as)
  have "filter (\<lambda>d. key d = k) (f a) = (if g a = k then f a else [])"
    using assms [of _ a] by (auto simp: filter_id_conv filter_empty_conv)
  with Cons.IH show ?case by simp
qed

lemma filter_eq_distinct:
  "distinct ks \<Longrightarrow> k \<in> set ks \<Longrightarrow> filter (\<lambda>a. a = k) ks = [k]"
  by (induction ks) (auto simp: filter_empty_conv)

lemma deduplicated_partition:
  assumes "filter (\<lambda>q. partition_key P q = k) fq = q # qs"
  shows "filter (\<lambda>d. (dq_bucket_start_time d, dq_query_fingerprint d) = k) (deduplicated_queries P fq) =
     [\<lparr>dq_query = latest q qs, dq_bucket_start_time = fst k, dq_query_fingerprint = snd k,
       dq_query_count = length (q # qs)\<rparr>]"
proof -
  let ?f = "\<lambda>k. case filter (\<lambda>q. partition_key P q = k) fq of
                         [] \<Rightarrow> []
                       | q # qs \<Rightarrow>
                           [\<lparr>dq_query = latest q qs, dq_bucket_start_time = fst k,
                             dq_query_fingerprint = snd k, dq_query_count = length (q # qs)\<rparr>]"
  have key: "(dq_bucket_start_time d, dq_query_fingerprint d) = a" if "d \<in> set (?f a)" for a d
    using that by (auto split: list.splits)
  from assms have "q \<in> set (filter (\<lambda>q. partition_key P q = k) fq)" by simp
  then have "k \<in> set (remdups (map (partition_key P) fq))" by auto
  then have one: "filter (\<lambda>a. a = k) (remdups (map (partition_key P) fq)) = [k]"
    by (intro filter_eq_distinct) auto
  have "filter (\<lambda>d. (dq_bucket_start_time d, dq_query_fingerprint d) = k) (deduplicated_queries P fq) =
      concat (map ?f (filter (\<lambda>a. a = k) (remdups (map (partition_key P) fq))))"
    unfolding deduplicated_queries_def
    by (rule filter_concat_map_key [where g = "\<lambda>a. a"]) (rule key)
  with one assms show ?thesis by simp
qed

lemma output_partition:
  assumes "filter (\<lambda>d. (dq_bucket_start_time d, dq_query_fingerprint d) = k) dq = [d]"
  shows "filter (\<lambda>x. (out_bucket_start_time x, out_query_fingerprint x) = k) (query_access_history dq fa) =
     map (join_row d) (filter (\<lambda>a. fa_query_id a = qh_query_id (dq_query d)) fa)"
proof -
  have "filter (\<lambda>x. (out_bucket_start_time x, out_query_fingerprint x) = k) (query_access_history dq fa) =
      concat (map (\<lambda>q. map (join_row q) (filter (\<lambda>a. fa_query_id a = qh_query_id (dq_query q)) fa))
        (filter (\<lambda>d. (dq_bucket_start_time d, dq_query_fingerprint d) = k) dq))"
    unfolding query_access_history_def
    by (rule filter_concat_map_key) (auto simp: join_row_def)
  with assms show ?thesis by simp
qed

lemma users_ok_iff:
  "us \<noteq> [] \<Longrightarrow> users_ok (Some us) u \<longleftrightarrow> u \<notin> set (map upper us)"
  by (simp add: users_ok_def)



lemma sample_pair_partition:
  "filter (\<lambda>q. partition_key sample_params q = (1699999200000, ''f00d''))
     (fingerprinted_queries sample_params [sample_q1, sample_q2]) = [sample_q1, sample_q2]"
  by code_simp

lemma sample_pair_output:
  "map (\<lambda>x. (out_query_id x, out_query_count x, out_query_start_time x))
     (enriched_audit_log sample_params [sample_q1, sample_q2] [sample_a2]) =
     [(''q2'', 2, 1700000100000)]"
  by code_simp

lemma sample_capped_output:
  "map (\<lambda>x. (map_option length (out_direct_objects_accessed x),
              map_option length (out_objects_modified x)))
     (enriched_audit_log sample_params [sample_q2] [sample_a2]) = [(Some 20, Some 21)]"
  by code_simp



section \<open>The cap on the objects of a query\<close>

text \<open>
  Claim C2, as amended. Every row the audit query returns comes from an access-history
  row of the same query whose \<^verbatim>\<open>direct_objects_accessed\<close> array was filtered to the
  table/view domains and then cut to its first 20 entries, so that it has at most 20, and
  whose \<^verbatim>\<open>objects_modified\<close> array was filtered to the table/view domains and not cut:
  all its table/view entries reach the parser. The accessed objects beyond the cap are
  dropped silently (the query reports nothing).
\<close>

theorem only_accessed_objects_are_capped:
  assumes "x \<in> set (enriched_audit_log P query_history access_history)"
  shows "\<exists>a \<in> set access_history.
     out_query_id x = ah_query_id a \<and>
     out_direct_objects_accessed x =
       map_option (\<lambda>xs. take 20 (filter (in_domains P) xs)) (ah_direct_objects_accessed a) \<and>
     out_objects_modified x = map_option (filter (in_domains P)) (ah_objects_modified a) \<and>
     (case out_direct_objects_accessed x of None \<Rightarrow> True | Some xs \<Rightarrow> length xs \<le> 20)"
proof -
  from assms obtain d a where a: "a \<in> set access_history"
    and x: "x = join_row d (select_filtered P a)" "ah_query_id a = qh_query_id (dq_query d)"
    by (auto simp: enriched_audit_log_def Let_def query_access_history_def
        filtered_access_history_def raw_access_history_def select_filtered_def)
  show ?thesis
    by (rule bexI [OF _ a])
       (auto simp: x join_row_def select_filtered_def MAX_TABLES_PER_QUERY_def split: option.splits)
qed

text \<open>
  The sample access-history row with a stage and 21 tables accessed and 21 tables
  modified.
\<close>

theorem only_accessed_objects_are_capped_witness:
  "hd (enriched_audit_log sample_params [sample_q2] [sample_a2]) \<in>
     set (enriched_audit_log sample_params [sample_q2] [sample_a2]) \<and>
   (\<exists>a \<in> set [sample_a2].
      out_direct_objects_accessed (hd (enriched_audit_log sample_params [sample_q2] [sample_a2])) =
        map_option (\<lambda>xs. take 20 (filter (in_domains sample_params) xs)) (ah_direct_objects_accessed a) \<and>
      out_objects_modified (hd (enriched_audit_log sample_params [sample_q2] [sample_a2])) =
        map_option (filter (in_domains sample_params)) (ah_objects_modified a))"
proof -
  from sample_capped_output have "enriched_audit_log sample_params [sample_q2] [sample_a2] \<noteq> []"
    by auto
  then have h: "hd (enriched_audit_log sample_params [sample_q2] [sample_a2]) \<in>
     set (enriched_audit_log sample_params [sample_q2] [sample_a2])"
    by simp
  from only_accessed_objects_are_capped [OF h] h show ?thesis
    by auto
qed

text \<open>
  On that row the \<^verbatim>\<open>objects_modified\<close> array of the output has 21 entries:
  \<^verbatim>\<open>ARRAY_SLICE\<close> is applied to \<^verbatim>\<open>direct_objects_accessed\<close> only.
\<close>

theorem modified_objects_not_capped_counterexample:
  "map (\<lambda>x. map_option length (out_objects_modified x))
     (enriched_audit_log sample_params [sample_q2] [sample_a2]) = [Some 21] \<and>
   map_option length (ah_objects_modified sample_a2) = Some 21"
  by code_simp

section \<open>Deduplication\<close>

text \<open>
  Claim C3, as amended. Let two query-history rows be the only rows of their partition
  (same bucket, same fingerprint) among the successful queries of the window that pass the
  user filter. Then deduplication keeps exactly one row for the partition, the later of
  the two, with \<^verbatim>\<open>query_count = 2\<close> and the later start time; and the rows of the output
  for that partition are the kept row joined with each access-history row of the kept
  query that survives the filters: exactly one output row when there is exactly one such
  access-history row, none when there is none.
\<close>

theorem deduplication_of_a_pair:
  assumes "filter (\<lambda>q. partition_key P q = k) (fingerprinted_queries P query_history) = [q1, q2]"
  shows "\<exists>kept.
     filter (\<lambda>d. (dq_bucket_start_time d, dq_query_fingerprint d) = k)
       (deduplicated_queries P (fingerprinted_queries P query_history)) = [kept] \<and>
     dq_query kept = (if qh_start_time q1 < qh_start_time q2 then q2 else q1) \<and>
     dq_query_count kept = 2 \<and>
     qh_start_time (dq_query kept) = max (qh_start_time q1) (qh_start_time q2) \<and>
     filter (\<lambda>x. (out_bucket_start_time x, out_query_fingerprint x) = k)
       (enriched_audit_log P query_history access_history) =
       map (join_row kept)
         (filter (\<lambda>a. fa_query_id a = qh_query_id (dq_query kept))
           (filtered_access_history P
             (raw_access_history P (deduplicated_queries P (fingerprinted_queries P query_history))
               access_history)))"
proof -
  let ?kept = "\<lparr>dq_query = latest q1 [q2], dq_bucket_start_time = fst k, dq_query_fingerprint = snd k,
       dq_query_count = length [q1, q2]\<rparr>"
  from deduplicated_partition [OF assms]
  have d: "filter (\<lambda>d. (dq_bucket_start_time d, dq_query_fingerprint d) = k)
       (deduplicated_queries P (fingerprinted_queries P query_history)) = [?kept]" .
  from output_partition [OF d] d show ?thesis
    by (intro exI [of _ ?kept]) (simp add: enriched_audit_log_def Let_def max_def)
qed

text \<open>
  The two sample queries, and one access-history row for the later one.
\<close>

theorem deduplication_of_a_pair_witness:
  "filter (\<lambda>q. partition_key sample_params q = (1699999200000, ''f00d''))
     (fingerprinted_queries sample_params [sample_q1, sample_q2]) = [sample_q1, sample_q2] \<and>
   (\<exists>kept.
     filter (\<lambda>d. (dq_bucket_start_time d, dq_query_fingerprint d) = (1699999200000, ''f00d''))
       (deduplicated_queries sample_params (fingerprinted_queries sample_params [sample_q1, sample_q2])) =
       [kept] \<and>
     dq_query kept = sample_q2 \<and> dq_query_count kept = 2 \<and>
     qh_start_time (dq_query kept) = 1700000100000) \<and>
   map (\<lambda>x. (out_query_id x, out_query_count x, out_query_start_time x))
     (enriched_audit_log sample_params [sample_q1, sample_q2] [sample_a2]) =
     [(''q2'', 2, 1700000100000)]"
proof -
  have t: "qh_start_time sample_q1 < qh_start_time sample_q2" "qh_start_time sample_q2 = 1700000100000"
    by (simp_all add: sample_q1_def sample_q2_def sample_query_def)
  from deduplication_of_a_pair [OF sample_pair_partition, of "[sample_a2]"] t
  have "\<exists>kept.
     filter (\<lambda>d. (dq_bucket_start_time d, dq_query_fingerprint d) = (1699999200000, ''f00d''))
       (deduplicated_queries sample_params (fingerprinted_queries sample_params [sample_q1, sample_q2])) =
       [kept] \<and>
     dq_query kept = sample_q2 \<and> dq_query_count kept = 2 \<and>
     qh_start_time (dq_query kept) = 1700000100000"
    by auto
  with sample_pair_partition sample_pair_output show ?thesis
    by blast
qed

text \<open>
  The same two queries with no access-history row: they are the two rows of their
  partition, and the output is empty.
\<close>

theorem pair_without_access_history_counterexample:
  "filter (\<lambda>q. partition_key sample_params q = (1699999200000, ''f00d''))
     (fingerprinted_queries sample_params [sample_q1, sample_q2]) = [sample_q1, sample_q2] \<and>
   enriched_audit_log sample_params [sample_q1, sample_q2] [] = []"
  by code_simp

section \<open>Rows with empty arrays\<close>



section \<open>The user filter\<close>





end
